(* ===== verification/Prelude.thy ===== *)
theory Prelude
  imports Main "HOL-Library.Word" "HOL-Library.Sublist"
begin

text \<open>
  Shared vocabulary of the development: the C integer types of the program as words,
  the C string conventions it relies on (NUL-terminated buffers, \<open>snprintf\<close> truncation,
  \<open>strstr\<close>), the decimal rendering of \<open>printf("%d")\<close> with its parser, and the
  generic lemmas the component theories share.  The libc routines here are not code of
  the repository; they are modelled from their C standard contracts so that the
  repository's calls to them can be executed inside the logic.
\<close>

named_theorems model_simps \<open>evaluation rules of the program model\<close>

type_synonym u16 = "16 word"
type_synonym s32 = "32 word"
type_synonym path = string

subsection \<open>C strings\<close>

definition NUL :: char where
  "NUL = CHR 0x00"

text \<open>The C string held by a buffer: its bytes up to the first NUL.\<close>

definition c_string :: "char list \<Rightarrow> string" where
  "c_string buf = takeWhile (\<lambda>c. c \<noteq> NUL) buf"

text \<open>
  \<open>snprintf(dst, size, "%s", s)\<close> stores at most \<open>size - 1\<close> characters of the C string
  \<open>s\<close> and a terminating NUL (for \<open>size > 0\<close>); the C string left in \<open>dst\<close> is this.
\<close>

definition snprintf_s :: "nat \<Rightarrow> string \<Rightarrow> string" where
  "snprintf_s sz s = take (sz - 1) (c_string s)"

text \<open>
  \<open>strstr(hay, needle)\<close>: the first position at which \<open>needle\<close> occurs in \<open>hay\<close>, or
  \<open>NULL\<close> (here \<open>None\<close>).  The scan tries each start position in turn, as the C
  routine does.
\<close>

fun strstr_from :: "nat \<Rightarrow> 'a list \<Rightarrow> 'a list \<Rightarrow> nat option" where
  "strstr_from i hay needle =
     (if prefix needle hay then Some i
      else (case hay of [] \<Rightarrow> None | _ # hs \<Rightarrow> strstr_from (Suc i) hs needle))"

declare strstr_from.simps [simp del]

definition strstr :: "'a list \<Rightarrow> 'a list \<Rightarrow> nat option" where
  "strstr hay needle = strstr_from 0 hay needle"

subsection \<open>Decimal rendering of \<open>printf("%d")\<close>\<close>

definition digit_char :: "nat \<Rightarrow> char" where
  "digit_char d = char_of (48 + d)"

fun dec_nat :: "nat \<Rightarrow> string" where
  "dec_nat n = (if n < 10 then [digit_char n] else dec_nat (n div 10) @ [digit_char (n mod 10)])"

declare dec_nat.simps [simp del]

definition dec_int :: "int \<Rightarrow> string" where
  "dec_int i = (if i < 0 then CHR ''-'' # dec_nat (nat (- i)) else dec_nat (nat i))"

text \<open>A reader of the program's output: decimal digits back to a number.\<close>

definition char_digit :: "char \<Rightarrow> nat option" where
  "char_digit c = (if (48::nat) \<le> of_char c \<and> of_char c < (58::nat) then Some (of_char c - 48) else None)"

fun parse_digits :: "nat \<Rightarrow> string \<Rightarrow> nat option" where
  "parse_digits acc [] = Some acc"
| "parse_digits acc (c # cs) =
     (case char_digit c of None \<Rightarrow> None | Some d \<Rightarrow> parse_digits (10 * acc + d) cs)"

definition parse_nat :: "string \<Rightarrow> nat option" where
  "parse_nat s = (if s = [] then None else parse_digits 0 s)"

definition parse_int :: "string \<Rightarrow> int option" where
  "parse_int s =
     (case s of c # cs \<Rightarrow> if c = CHR ''-'' then map_option (\<lambda>n. - int n) (parse_nat cs)
                           else map_option int (parse_nat s)
      | [] \<Rightarrow> None)"

subsection \<open>Lemmas on the C string model\<close>

lemma strstr_from_None_iff:
  "strstr_from i hay needle = None \<longleftrightarrow> \<not> sublist needle hay"
proof (induction hay arbitrary: i)
  case Nil
  show ?case by (simp add: strstr_from.simps [of i "[]"])
next
  case (Cons y ys)
  then show ?case
    by (simp add: strstr_from.simps [of i "y # ys"] sublist_Cons_right)
qed

lemma strstr_from_Some:
  "strstr_from i hay needle = Some k \<Longrightarrow> i \<le> k \<and> prefix needle (drop (k - i) hay)"
proof (induction hay arbitrary: i)
  case Nil
  then show ?case by (simp add: strstr_from.simps [of i "[]"] split: if_splits)
next
  case (Cons y ys)
  show ?case
  proof (cases "prefix needle (y # ys)")
    case True
    with Cons.prems show ?thesis by (simp add: strstr_from.simps [of i "y # ys"])
  next
    case False
    with Cons.prems have "strstr_from (Suc i) ys needle = Some k"
      by (simp add: strstr_from.simps [of i "y # ys"])
    from Cons.IH [OF this] have "i < k" and "prefix needle (drop (k - Suc i) ys)"
      by simp_all
    moreover from \<open>i < k\<close> have "k - i = Suc (k - Suc i)"
      by simp
    ultimately show ?thesis by simp
  qed
qed

text \<open>\<open>strstr\<close> finds an occurrence exactly when the needle is a substring.\<close>

lemma strstr_None_iff [simp]:
  "(strstr hay needle = None) = (\<not> sublist needle hay)"
  by (simp add: strstr_def strstr_from_None_iff)

lemma c_string_no_NUL [simp]: "NUL \<notin> set (c_string buf)"
  by (auto simp: c_string_def dest: set_takeWhileD)

lemma c_string_id [simp]: "NUL \<notin> set s \<Longrightarrow> c_string s = s"
  by (auto simp: c_string_def takeWhile_eq_all_conv)

lemma snprintf_s_short [simp]:
  "NUL \<notin> set s \<Longrightarrow> length s < sz \<Longrightarrow> snprintf_s sz s = s"
  by (simp add: snprintf_s_def)

lemma snprintf_s_length: "length (snprintf_s sz s) \<le> sz - 1"
  by (simp add: snprintf_s_def)

subsection \<open>Lemmas on decimal rendering\<close>

lemma char_digit_digit_char [simp]: "d < 10 \<Longrightarrow> char_digit (digit_char d) = Some d"
  by (simp add: char_digit_def digit_char_def)

lemma dec_nat_small [model_simps]: "n < 10 \<Longrightarrow> dec_nat n = [digit_char n]"
  by (simp add: dec_nat.simps [of n])

lemma dec_nat_large [model_simps]:
  "\<not> n < 10 \<Longrightarrow> dec_nat n = dec_nat (n div 10) @ [digit_char (n mod 10)]"
  by (simp add: dec_nat.simps [of n])

lemma dec_nat_digits: "set (dec_nat n) \<subseteq> digit_char ` {0..<10}"
proof (induction n rule: dec_nat.induct)
  case (1 n)
  show ?case
  proof (cases "n < 10")
    case True
    then show ?thesis by (simp add: dec_nat_small)
  next
    case False
    have "n mod 10 < 10" by simp
    with "1.IH" [OF False] show ?thesis
      by (simp add: dec_nat_large [OF False])
  qed
qed

lemma dec_nat_not_Nil [simp]: "dec_nat n \<noteq> []"
  by (cases "n < 10") (simp_all add: dec_nat_small dec_nat_large)

lemma digit_char_inj: "d < 10 \<Longrightarrow> e < 10 \<Longrightarrow> digit_char d = digit_char e \<Longrightarrow> d = e"
  by (metis char_digit_digit_char option.inject)

lemma digit_char_values [simp]:
  "digit_char 0 = CHR ''0''" "digit_char 1 = CHR ''1''" "digit_char 2 = CHR ''2''"
  "digit_char 3 = CHR ''3''" "digit_char 4 = CHR ''4''" "digit_char 5 = CHR ''5''"
  "digit_char 6 = CHR ''6''" "digit_char 7 = CHR ''7''" "digit_char 8 = CHR ''8''"
  "digit_char 9 = CHR ''9''" "digit_char (Suc 0) = CHR ''1''"
  by (simp_all add: digit_char_def) code_simp+

lemma of_char_digit_char [simp]: "d < 10 \<Longrightarrow> of_char (digit_char d) = (48 + d :: nat)"
  by (simp add: digit_char_def)

text \<open>No digit is a character below \<open>'0'\<close>: the sign, the separator, the newline.\<close>

lemma digit_char_below: "d < 10 \<Longrightarrow> of_char c < (48::nat) \<Longrightarrow> digit_char d \<noteq> c"
  by (metis of_char_digit_char le_add1 not_le)

lemma digit_char_not_minus [simp]: "d < 10 \<Longrightarrow> digit_char d \<noteq> CHR ''-''"
  by (rule digit_char_below) simp_all

lemma parse_digits_append:
  "parse_digits acc (xs @ ys) = Option.bind (parse_digits acc xs) (\<lambda>a. parse_digits a ys)"
  by (induction acc xs rule: parse_digits.induct) (auto split: option.splits)

lemma parse_digits_dec_nat:
  "parse_digits acc (dec_nat n) = Some (10 ^ length (dec_nat n) * acc + n)"
proof (induction n arbitrary: acc rule: dec_nat.induct)
  case (1 n)
  show ?case
  proof (cases "n < 10")
    case True
    then show ?thesis by (simp add: dec_nat_small)
  next
    case False
    then show ?thesis
      using "1.IH" [OF False]
      by (simp add: dec_nat_large [OF False] parse_digits_append algebra_simps)
  qed
qed

lemma parse_nat_dec_nat [simp]: "parse_nat (dec_nat n) = Some n"
  by (simp add: parse_nat_def parse_digits_dec_nat)

lemma dec_nat_hd_not_minus: "dec_nat n = c # cs \<Longrightarrow> c \<noteq> CHR ''-''"
  using dec_nat_digits [of n] by auto

lemma parse_int_dec_int [simp]: "parse_int (dec_int i) = Some i"
proof (cases "i < 0")
  case True
  then show ?thesis by (simp add: dec_int_def parse_int_def)
next
  case False
  obtain c cs where dc: "dec_nat (nat i) = c # cs"
    by (cases "dec_nat (nat i)") simp_all
  then have "c \<noteq> CHR ''-''" by (rule dec_nat_hd_not_minus)
  then have "parse_int (dec_nat (nat i)) = map_option int (parse_nat (dec_nat (nat i)))"
    by (simp add: parse_int_def dc)
  with False show ?thesis
    by (simp add: dec_int_def)
qed

lemma dec_int_chars:
  "c \<in> set (dec_int i) \<Longrightarrow> of_char c < (48::nat) \<Longrightarrow> c = CHR ''-''"
  using dec_nat_digits [of "nat i"] dec_nat_digits [of "nat (- i)"] digit_char_below
  by (fastforce simp: dec_int_def split: if_splits)

lemma dec_int_no_comma [simp]: "CHR '','' \<notin> set (dec_int i)"
  using dec_int_chars [of "CHR '',''" i] by auto

lemma dec_int_no_newline [simp]: "CHR ''\<newline>'' \<notin> set (dec_int i)"
  using dec_int_chars [of "CHR ''\<newline>''" i] by auto

lemma length_dec_nat_le: "n < 10 ^ k \<Longrightarrow> 0 < k \<Longrightarrow> length (dec_nat n) \<le> k"
proof (induction n arbitrary: k rule: dec_nat.induct)
  case (1 n)
  show ?case
  proof (cases "n < 10")
    case True
    with "1.prems" show ?thesis by (simp add: dec_nat_small)
  next
    case False
    have "k \<noteq> 1" using "1.prems"(1) False by auto
    with "1.prems"(2) have "1 < k" by simp
    with "1.prems" have "n div 10 < 10 ^ (k - 1)"
      by (cases k) (simp_all add: less_mult_imp_div_less)
    with "1.IH" [OF False] \<open>1 < k\<close> have "length (dec_nat (n div 10)) \<le> k - 1" by simp
    with False \<open>1 < k\<close> show ?thesis by (simp add: dec_nat_large)
  qed
qed

lemma length_dec_int_nonneg: "0 \<le> i \<Longrightarrow> i < 2 ^ 31 \<Longrightarrow> length (dec_int i) \<le> 10"
proof -
  assume "0 \<le> i" and "i < 2 ^ 31"
  then have "nat i < 10 ^ 10" by simp
  with \<open>0 \<le> i\<close> show ?thesis by (simp add: dec_int_def length_dec_nat_le)
qed

lemma find_Some_in_set: "find P xs = Some x \<Longrightarrow> x \<in> set xs \<and> P x"
  by (induction xs) (auto split: if_splits)

lemma find_unique:
  assumes "x \<in> set xs" and "P x" and "\<forall>y \<in> set xs. P y \<longrightarrow> y = x"
  shows "find P xs = Some x"
  using assms
proof (induction xs)
  case Nil
  then show ?case by simp
next
  case (Cons a xs)
  show ?case
  proof (cases "P a")
    case True
    from Cons.prems(3) True have "a = x" by (meson list.set_intros(1))
    with True show ?thesis by simp
  next
    case False
    with Cons.prems(2) have "x \<noteq> a" by blast
    with Cons.prems(1) have "x \<in> set xs" by simp
    moreover from Cons.prems(3) have "\<forall>y \<in> set xs. P y \<longrightarrow> y = x"
      by (meson list.set_intros(2))
    ultimately have "find P xs = Some x" using Cons.IH Cons.prems(2) by blast
    with False show ?thesis by simp
  qed
qed

end
