(* ===== verification/Posix.thy ===== *)
theory Posix
  imports Prelude
begin

text \<open>
  The part of the operating system the program talks to, modelled from the POSIX and
  Linux evdev contracts (none of it is code of the repository): device nodes that can
  or cannot be opened, the file-descriptor table, the \<open>EVIOCGNAME\<close> ioctl, the
  program's global \<open>running\<close> flag and signal dispositions, and the two output streams.
  The program's diagnostics on standard error are kept as values of \<open>diag\<close>, one per
  \<open>fprintf(stderr, ...)\<close> call of the source, since no caller parses them; standard
  output is kept as the exact characters written, since it is the program's contract.
\<close>

datatype errno = EINTR | EAGAIN | ENOENT | EACCES | ENODEV | ENOTTY | EIO | EINVAL

datatype signal = SIGINT | SIGTERM

text \<open>A device node: whether this process may open it, and the name its driver
  reports through \<open>EVIOCGNAME\<close> (\<open>None\<close>: the node is no evdev device and the ioctl
  fails).\<close>

record node =
  nd_readable :: bool
  nd_name :: "string option"

datatype diag =
    FoundTouch path string
  | UsingDefault path
  | FailedToFind
  | CannotOpen path errno
  | Listening path
  | PressCtrlC
  | ReadError errno

record world =
  nodes :: "path \<Rightarrow> node option"
  fds :: "nat \<Rightarrow> path option"
  next_fd :: nat
  running :: bool
  handled :: "signal list"
  sa_restart :: bool
  stdout :: string
  stderr :: "diag list"

type_synonym fd = nat

text \<open>How a run of the process ends: it exits with a status, it is still blocked in
  a \<open>read\<close> when the environment has nothing more to deliver, or a signal it has no
  handler for ended it (the default action of \<open>SIGINT\<close> and \<open>SIGTERM\<close>).\<close>

datatype status = Exited int | Blocked | Killed signal

subsection \<open>System calls\<close>

text \<open>\<open>open(path, flags)\<close>: a fresh descriptor, or the error the kernel reports.\<close>

definition sys_open :: "world \<Rightarrow> path \<Rightarrow> (errno + fd) \<times> world" where
  "sys_open w p =
     (case nodes w p of
        None \<Rightarrow> (Inl ENOENT, w)
      | Some n \<Rightarrow>
          if \<not> nd_readable n then (Inl EACCES, w)
          else (Inr (next_fd w), w\<lparr>fds := (fds w)(next_fd w \<mapsto> p), next_fd := Suc (next_fd w)\<rparr>))"

definition sys_close :: "world \<Rightarrow> fd \<Rightarrow> world" where
  "sys_close w fd = w\<lparr>fds := (fds w)(fd := None)\<rparr>"

text \<open>
  \<open>ioctl(fd, EVIOCGNAME(len), buf)\<close>: the kernel copies \<open>min(strlen(name) + 1, len)\<close>
  bytes of the device name and its terminator into \<open>buf\<close> and returns that count; the
  bytes it writes are the result here.  A name of \<open>len\<close> characters or more is cut
  without its terminator.
\<close>

definition sys_ioctl_name :: "world \<Rightarrow> fd \<Rightarrow> nat \<Rightarrow> errno + char list" where
  "sys_ioctl_name w fd len =
     (case fds w fd of
        None \<Rightarrow> Inl EINVAL
      | Some p \<Rightarrow>
          (case nodes w p of
             None \<Rightarrow> Inl ENODEV
           | Some n \<Rightarrow>
               (case nd_name n of
                  None \<Rightarrow> Inl ENOTTY
                | Some nm \<Rightarrow> Inr (take len (nm @ [NUL])))))"

definition emit_diag :: "world \<Rightarrow> diag \<Rightarrow> world" where
  "emit_diag w d = w\<lparr>stderr := stderr w @ [d]\<rparr>"

definition write_stdout :: "world \<Rightarrow> string \<Rightarrow> world" where
  "write_stdout w s = w\<lparr>stdout := stdout w @ s\<rparr>"

text \<open>\<open>signal(sig, handler)\<close>: the handler is installed for \<open>sig\<close>.  Whether an
  interrupted \<open>read\<close> is restarted after the handler runs is the library's choice,
  recorded in \<open>sa_restart\<close> (glibc's \<open>signal\<close> installs with \<open>SA_RESTART\<close>).\<close>

definition install_handler :: "world \<Rightarrow> signal \<Rightarrow> world" where
  "install_handler w s = w\<lparr>handled := s # handled w\<rparr>"

text \<open>A world whose device names are C strings that fit the program's 256-byte
  buffer (the kernel limits the names it hands out; \<open>uinput\<close> caps them at 80).\<close>

definition names_fit :: "world \<Rightarrow> bool" where
  "names_fit w \<longleftrightarrow>
     (\<forall>p n nm. nodes w p = Some n \<longrightarrow> nd_name n = Some nm \<longrightarrow> NUL \<notin> set nm \<and> length nm < 256)"

text \<open>The descriptor table never holds a number from \<open>next_fd\<close> on, so \<open>open\<close>
  hands out a number that is free.\<close>

definition fds_wf :: "world \<Rightarrow> bool" where
  "fds_wf w \<longleftrightarrow> (\<forall>n. next_fd w \<le> n \<longrightarrow> fds w n = None)"

text \<open>A small device tree for concrete runs: \<open>event0\<close> is a keyboard, \<open>event1\<close>
  the touch panel, \<open>event2\<close> missing; nothing is open yet.\<close>

definition demo_world :: world where
  "demo_world =
     \<lparr>nodes = [''/dev/input/event0'' \<mapsto> \<lparr>nd_readable = True, nd_name = Some ''gpio-keys''\<rparr>,
               ''/dev/input/event1'' \<mapsto> \<lparr>nd_readable = True, nd_name = Some ''cyttsp-touchscreen''\<rparr>],
      fds = Map.empty, next_fd = 3, running = True, handled = [], sa_restart = True,
      stdout = [], stderr = []\<rparr>"

subsection \<open>Lemmas on the system calls\<close>

lemma sys_open_Inl: "sys_open w p = (Inl e, w') \<Longrightarrow> w' = w"
  by (auto simp: sys_open_def split: option.splits if_splits)

lemma sys_open_Inr:
  "sys_open w p = (Inr fd, w') \<Longrightarrow>
     fd = next_fd w \<and> w' = w\<lparr>fds := (fds w)(fd \<mapsto> p), next_fd := Suc (next_fd w)\<rparr>"
  by (auto simp: sys_open_def split: option.splits if_splits)

lemma sys_open_fresh:
  "sys_open w p = (Inr fd, w') \<Longrightarrow> fds w' fd = Some p"
  by (auto dest: sys_open_Inr)

lemma sys_ioctl_name_open:
  "sys_open w p = (Inr fd, w') \<Longrightarrow> nodes w p = Some n \<Longrightarrow> nd_name n = Some nm \<Longrightarrow>
     sys_ioctl_name w' fd len = Inr (take len (nm @ [NUL]))"
  by (auto simp: sys_ioctl_name_def dest: sys_open_Inr)

lemma c_string_ioctl_buffer:
  assumes "NUL \<notin> set nm" and "length nm < len"
  shows "c_string (take len (nm @ [NUL])) = nm"
proof -
  have "takeWhile (\<lambda>c. c \<noteq> NUL) (nm @ [NUL]) = nm @ takeWhile (\<lambda>c. c \<noteq> NUL) [NUL]"
    by (rule takeWhile_append2) (use assms(1) in auto)
  with assms(2) show ?thesis by (simp add: c_string_def)
qed

text \<open>The calls that do not touch a field leave it as it was.\<close>

lemma sys_close_fields [simp]:
  "nodes (sys_close w fd) = nodes w" "running (sys_close w fd) = running w"
  "handled (sys_close w fd) = handled w" "stdout (sys_close w fd) = stdout w"
  "stderr (sys_close w fd) = stderr w" "next_fd (sys_close w fd) = next_fd w"
  "sa_restart (sys_close w fd) = sa_restart w" "fds (sys_close w fd) = (fds w)(fd := None)"
  by (simp_all add: sys_close_def)

lemma emit_diag_fields [simp]:
  "nodes (emit_diag w d) = nodes w" "running (emit_diag w d) = running w"
  "handled (emit_diag w d) = handled w" "stdout (emit_diag w d) = stdout w"
  "stderr (emit_diag w d) = stderr w @ [d]" "fds (emit_diag w d) = fds w"
  "next_fd (emit_diag w d) = next_fd w" "sa_restart (emit_diag w d) = sa_restart w"
  by (simp_all add: emit_diag_def)

lemma install_handler_fields [simp]:
  "nodes (install_handler w s) = nodes w" "running (install_handler w s) = running w"
  "handled (install_handler w s) = s # handled w" "stdout (install_handler w s) = stdout w"
  "stderr (install_handler w s) = stderr w" "fds (install_handler w s) = fds w"
  "next_fd (install_handler w s) = next_fd w" "sa_restart (install_handler w s) = sa_restart w"
  by (simp_all add: install_handler_def)

lemma write_stdout_fields [simp]:
  "nodes (write_stdout w s) = nodes w" "running (write_stdout w s) = running w"
  "handled (write_stdout w s) = handled w" "stdout (write_stdout w s) = stdout w @ s"
  "stderr (write_stdout w s) = stderr w" "fds (write_stdout w s) = fds w"
  "next_fd (write_stdout w s) = next_fd w" "sa_restart (write_stdout w s) = sa_restart w"
  by (simp_all add: write_stdout_def)

lemma sys_open_fields:
  "sys_open w p = (r, w') \<Longrightarrow>
     nodes w' = nodes w \<and> running w' = running w \<and> handled w' = handled w \<and>
     stdout w' = stdout w \<and> stderr w' = stderr w \<and> sa_restart w' = sa_restart w"
  by (auto simp: sys_open_def split: option.splits if_splits)

lemma sys_open_fds_wf:
  "fds_wf w \<Longrightarrow> sys_open w p = (r, w') \<Longrightarrow> fds_wf w'"
  by (auto simp: sys_open_def fds_wf_def split: option.splits if_splits)

lemma sys_open_close_fds:
  "fds_wf w \<Longrightarrow> sys_open w p = (Inr fd, w') \<Longrightarrow> (fds w')(fd := None) = fds w"
  by (auto simp: fds_wf_def dest!: sys_open_Inr)

lemma sys_close_fds_wf: "fds_wf w \<Longrightarrow> fds_wf (sys_close w fd)"
  by (simp add: fds_wf_def)

lemma sys_open_readable:
  assumes "nodes w p = Some n" and "nd_readable n"
  obtains w1 where "sys_open w p = (Inr (next_fd w), w1)"
  using assms by (simp add: sys_open_def)

lemma demo_world_simps [simp]:
  "stdout demo_world = []" "stderr demo_world = []" "running demo_world" "sa_restart demo_world"
  "fds demo_world = Map.empty" "next_fd demo_world = 3" "handled demo_world = []"
  by (simp_all add: demo_world_def)

lemma demo_world_fds_wf: "fds_wf demo_world"
  by (simp add: fds_wf_def)

end
