(* ===== verification/Device_Locator.thy ===== *)
theory Device_Locator
  imports Posix
begin

text \<open>
  The device locator, \<open>find_touch_device\<close> of \<open>src/openReader/src/touch_reader.c\<close>
  (lines 25--65): the fixed candidate list, the name test, the probing loop that opens
  each candidate, asks its name and closes it again, and the fallback to
  \<open>/dev/input/event1\<close>.  Its abstract specification \<open>locate\<close> is the first candidate, in
  list order, that can be opened and whose name has a touch keyword.
\<close>

subsection \<open>Candidates and the name test\<close>

text \<open>Lines 32--37; the \<open>NULL\<close> that ends the C array ends the list.\<close>

definition common_paths :: "path list" where
  "common_paths = [''/dev/input/event0'', ''/dev/input/event1'', ''/dev/input/event2'']"

definition default_path :: path where
  "default_path = ''/dev/input/event1''"

text \<open>The size of the \<open>name\<close> buffer (line 28) and of the caller's path buffer
  (\<open>main\<close>, line 137).\<close>

definition name_buf_size :: nat where
  "name_buf_size = 256"

text \<open>Lines 48--51: the four \<open>strstr\<close> tests, case-sensitive.\<close>

definition name_matches :: "string \<Rightarrow> bool" where
  "name_matches name \<longleftrightarrow>
     strstr name ''touch'' \<noteq> None \<or> strstr name ''Touch'' \<noteq> None \<or>
     strstr name ''touchscreen'' \<noteq> None \<or> strstr name ''elan'' \<noteq> None"

subsection \<open>The probing loop and the routine\<close>

text \<open>
  Lines 39--59.  A candidate that cannot be opened is skipped; an opened one is asked
  its name into the 256-byte buffer, and closed whether or not the name matches.  The
  result is the matching path with the name read, or \<open>None\<close> after the last candidate.
\<close>

fun probe_devices :: "path list \<Rightarrow> world \<Rightarrow> (path \<times> string) option \<times> world" where
  "probe_devices [] w = (None, w)"
| "probe_devices (p # ps) w =
     (case sys_open w p of
        (Inl e, w1) \<Rightarrow> probe_devices ps w1
      | (Inr fd, w1) \<Rightarrow>
          (case sys_ioctl_name w1 fd name_buf_size of
             Inr buf \<Rightarrow>
               if name_matches (c_string buf) then (Some (p, c_string buf), sys_close w1 fd)
               else probe_devices ps (sys_close w1 fd)
           | Inl e \<Rightarrow> probe_devices ps (sys_close w1 fd)))"

text \<open>Lines 25--65: the path is copied into the caller's buffer with \<open>snprintf\<close>, a
  diagnostic names it, and the routine returns 0 on both paths.\<close>

definition find_touch_device :: "nat \<Rightarrow> world \<Rightarrow> int \<times> path \<times> world" where
  "find_touch_device path_size w =
     (case probe_devices common_paths w of
        (Some (p, nm), w1) \<Rightarrow>
          (let dp = snprintf_s path_size p in (0, dp, emit_diag w1 (FoundTouch dp nm)))
      | (None, w1) \<Rightarrow>
          (let dp = snprintf_s path_size default_path in (0, dp, emit_diag w1 (UsingDefault dp))))"

subsection \<open>Abstract specification\<close>

text \<open>The name the probe reads from a node, when it can open it and ask.\<close>

definition device_name :: "world \<Rightarrow> path \<Rightarrow> string option" where
  "device_name w p =
     (case nodes w p of
        None \<Rightarrow> None
      | Some n \<Rightarrow>
          if nd_readable n
          then map_option (\<lambda>nm. c_string (take name_buf_size (nm @ [NUL]))) (nd_name n)
          else None)"

definition touch_candidate :: "world \<Rightarrow> path \<Rightarrow> bool" where
  "touch_candidate w p \<longleftrightarrow> (case device_name w p of Some nm \<Rightarrow> name_matches nm | None \<Rightarrow> False)"

definition locate :: "world \<Rightarrow> path" where
  "locate w = (case find (touch_candidate w) common_paths of Some p \<Rightarrow> p | None \<Rightarrow> default_path)"

text \<open>The diagnostic the locator owes: the device found with its name, or the default.\<close>

definition locate_diag :: "world \<Rightarrow> diag" where
  "locate_diag w =
     (case find (touch_candidate w) common_paths of
        Some p \<Rightarrow> FoundTouch p (the (device_name w p))
      | None \<Rightarrow> UsingDefault default_path)"


subsection \<open>Lemmas on the probing loop\<close>

lemma device_name_nodes: "nodes w' = nodes w \<Longrightarrow> device_name w' p = device_name w p"
  by (simp add: device_name_def)

lemma touch_candidate_nodes: "nodes w' = nodes w \<Longrightarrow> touch_candidate w' p = touch_candidate w p"
  by (simp add: touch_candidate_def device_name_def)

lemma probe_open_name:
  "sys_open w p = (Inr fd, w1) \<Longrightarrow>
     (case sys_ioctl_name w1 fd name_buf_size of Inr buf \<Rightarrow> Some (c_string buf) | Inl e \<Rightarrow> None) =
     device_name w p"
  by (auto simp: sys_ioctl_name_def device_name_def sys_open_def split: option.splits if_splits)

lemma sys_open_Inl_device_name: "sys_open w p = (Inl e, w1) \<Longrightarrow> device_name w p = None"
  by (auto simp: sys_open_def device_name_def split: option.splits if_splits)

text \<open>The probing loop finds the first candidate of its list, and leaves the device
  nodes, the output streams and the flags as they were.\<close>

lemma probe_devices_find:
  "fst (probe_devices ps w) =
     map_option (\<lambda>p. (p, the (device_name w p))) (find (touch_candidate w) ps) \<and>
   nodes (snd (probe_devices ps w)) = nodes w \<and> stdout (snd (probe_devices ps w)) = stdout w \<and>
   stderr (snd (probe_devices ps w)) = stderr w \<and> running (snd (probe_devices ps w)) = running w \<and>
   sa_restart (snd (probe_devices ps w)) = sa_restart w"
proof (induction ps arbitrary: w)
  case Nil
  show ?case by simp
next
  case (Cons p ps)
  show ?case
  proof (cases "sys_open w p")
    case (Pair r w1)
    note f1 = sys_open_fields [OF Pair]
    have dn1: "device_name w1 = device_name w" and tc1: "touch_candidate w1 = touch_candidate w"
      using f1 by (auto intro!: ext device_name_nodes touch_candidate_nodes)
    show ?thesis
    proof (cases r)
      case (Inl e)
      with Pair have "\<not> touch_candidate w p"
        by (simp add: touch_candidate_def sys_open_Inl_device_name)
      with Inl Pair Cons.IH [of w1] f1 dn1 tc1 show ?thesis by simp
    next
      case (Inr fd)
      with Pair have nm: "(case sys_ioctl_name w1 fd name_buf_size of Inr buf \<Rightarrow> Some (c_string buf)
                             | Inl e \<Rightarrow> None) = device_name w p"
        by (simp add: probe_open_name)
      have dn2: "device_name (sys_close w1 fd) = device_name w"
        and tc2: "touch_candidate (sys_close w1 fd) = touch_candidate w"
        using f1 by (auto intro!: ext device_name_nodes touch_candidate_nodes)
      show ?thesis
      proof (cases "sys_ioctl_name w1 fd name_buf_size")
        case (Inl e)
        with nm have "\<not> touch_candidate w p" by (simp add: touch_candidate_def)
        with Inl Inr Pair Cons.IH [of "sys_close w1 fd"] f1 dn2 tc2 show ?thesis by simp
      next
        case (Inr buf)
        with nm have dp: "device_name w p = Some (c_string buf)" by simp
        then have "touch_candidate w p = name_matches (c_string buf)" by (simp add: touch_candidate_def)
        with Inr \<open>r = Inr fd\<close> Pair Cons.IH [of "sys_close w1 fd"] f1 dn2 tc2 dp show ?thesis by simp
      qed
    qed
  qed
qed

lemma probe_devices_fds:
  "fds_wf w \<Longrightarrow> fds (snd (probe_devices ps w)) = fds w \<and> fds_wf (snd (probe_devices ps w))"
proof (induction ps arbitrary: w)
  case Nil
  then show ?case by simp
next
  case (Cons p ps)
  show ?case
  proof (cases "sys_open w p")
    case (Pair r w1)
    have wf1: "fds_wf w1" by (rule sys_open_fds_wf [OF Cons.prems Pair])
    show ?thesis
    proof (cases r)
      case (Inl e)
      with Pair have "w1 = w" by (simp add: sys_open_Inl)
      with Inl Pair Cons.IH [OF wf1] show ?thesis by simp
    next
      case (Inr fd)
      with Pair have cl: "fds (sys_close w1 fd) = fds w"
        using sys_open_close_fds [OF Cons.prems] by simp
      have wf2: "fds_wf (sys_close w1 fd)" by (rule sys_close_fds_wf [OF wf1])
      from Inr Pair Cons.IH [OF wf2] cl wf2 show ?thesis
        by (auto split: sum.splits simp: fun_upd_def)
    qed
  qed
qed

lemma common_paths_fit: "p \<in> set common_paths \<Longrightarrow> NUL \<notin> set p \<and> length p < 256"
  by (auto simp: common_paths_def NUL_def)

lemma default_path_fit: "NUL \<notin> set default_path \<and> length default_path < 256"
  by (simp add: default_path_def NUL_def)

lemma find_touch_device_eq:
  "find_touch_device name_buf_size w =
     (case probe_devices common_paths w of
        (Some (p, nm), w1) \<Rightarrow> (0, p, emit_diag w1 (FoundTouch p nm))
      | (None, w1) \<Rightarrow> (0, default_path, emit_diag w1 (UsingDefault default_path)))"
proof (cases "probe_devices common_paths w")
  case (Pair r w1)
  show ?thesis
  proof (cases r)
    case None
    with Pair default_path_fit show ?thesis by (simp add: find_touch_device_def name_buf_size_def)
  next
    case (Some pn)
    obtain p nm where pn: "pn = (p, nm)" by (cases pn)
    from probe_devices_find [of common_paths w] Pair Some pn
    have "map_option (\<lambda>p. (p, the (device_name w p))) (find (touch_candidate w) common_paths) = Some (p, nm)"
      by simp
    then have "find (touch_candidate w) common_paths = Some p" by (auto simp: map_option_eq_Some)
    then have "p \<in> set common_paths" by (simp add: find_Some_in_set)
    with Pair Some pn common_paths_fit show ?thesis
      by (simp add: find_touch_device_def name_buf_size_def)
  qed
qed

lemma find_touch_device_stderr:
  "stderr (snd (snd (find_touch_device name_buf_size w))) = stderr w @ [locate_diag w]"
  using probe_devices_find [of common_paths w]
  by (auto simp: find_touch_device_eq locate_diag_def split: prod.splits option.splits)

lemma find_touch_device_path:
  "fst (find_touch_device name_buf_size w) = 0 \<and> fst (snd (find_touch_device name_buf_size w)) = locate w"
  using probe_devices_find [of common_paths w]
  by (auto simp: find_touch_device_eq locate_def split: prod.splits option.splits)

text \<open>The locator hands over a descriptor table as it found it, still well formed.\<close>

lemma find_touch_device_fds_wf:
  "fds_wf w \<Longrightarrow>
     fds (snd (snd (find_touch_device sz w))) = fds w \<and> fds_wf (snd (snd (find_touch_device sz w)))"
  using probe_devices_fds [of w common_paths]
  by (auto simp: find_touch_device_def Let_def fds_wf_def split: prod.splits option.splits)

lemma sublist_touchscreen: "sublist ''touchscreen'' nm \<Longrightarrow> sublist ''touch'' nm"
proof -
  assume "sublist ''touchscreen'' nm"
  then obtain ps ss where "nm = ps @ ''touchscreen'' @ ss" by (auto simp: sublist_def)
  then have "nm = ps @ ''touch'' @ (''screen'' @ ss)" by simp
  then show "sublist ''touch'' nm" by (auto simp: sublist_def)
qed

subsection \<open>Properties of the locator\<close>

text \<open>C5 (refinement). The locator implements its specification: it returns 0, the path
  it hands back is the first candidate, in list order, that opens and whose name has a
  touch keyword, or \<open>/dev/input/event1\<close> when none has, and probing leaves the device
  nodes, standard output and the running flag as they were.\<close>

theorem find_touch_device_refines:
  "\<exists>w'. find_touch_device name_buf_size w = (0, locate w, w') \<and>
        nodes w' = nodes w \<and> stdout w' = stdout w \<and> running w' = running w"
  using find_touch_device_path [of w] probe_devices_find [of common_paths w]
  by (auto simp: find_touch_device_eq split: prod.splits option.splits)

text \<open>C15 (functional). When exactly one candidate opens and has a touch name, the
  locator picks that one and no other.\<close>

theorem find_touch_device_unique_match:
  assumes "p \<in> set common_paths" and "touch_candidate w p"
    and "\<forall>q \<in> set common_paths. touch_candidate w q \<longrightarrow> q = p"
  shows "fst (snd (find_touch_device name_buf_size w)) = p"
proof -
  from assms have "find (touch_candidate w) common_paths = Some p"
    by (rule find_unique)
  then show ?thesis using find_touch_device_path [of w] by (simp add: locate_def)
qed

lemma demo_candidates:
  "touch_candidate demo_world ''/dev/input/event1''"
  "\<not> touch_candidate demo_world ''/dev/input/event0''"
  "\<not> touch_candidate demo_world ''/dev/input/event2''"
  by code_simp+

theorem find_touch_device_unique_match_witness:
  "fst (snd (find_touch_device name_buf_size demo_world)) = ''/dev/input/event1''"
proof -
  have names: "touch_candidate demo_world q \<longleftrightarrow> q = ''/dev/input/event1''" if "q \<in> set common_paths" for q
    using that demo_candidates by (auto simp: common_paths_def)
  have "''/dev/input/event1'' \<in> set common_paths" by (simp add: common_paths_def)
  from find_touch_device_unique_match [OF this] names this show ?thesis by blast
qed

text \<open>C16 (functional). When no candidate has a touch name, the locator falls back to
  \<open>/dev/input/event1\<close> and says so on standard error.\<close>

theorem find_touch_device_default:
  assumes "\<forall>q \<in> set common_paths. \<not> touch_candidate w q"
  shows "fst (snd (find_touch_device name_buf_size w)) = default_path \<and>
         last (stderr (snd (snd (find_touch_device name_buf_size w)))) = UsingDefault default_path"
proof -
  from assms have "find (touch_candidate w) common_paths = None" by (simp add: find_None_iff)
  with probe_devices_find [of common_paths w] show ?thesis
    by (auto simp: find_touch_device_eq split: prod.splits)
qed

theorem find_touch_device_default_witness:
  "fst (snd (find_touch_device name_buf_size (demo_world\<lparr>nodes := Map.empty\<rparr>))) = ''/dev/input/event1''"
proof -
  have "\<forall>q \<in> set common_paths. \<not> touch_candidate (demo_world\<lparr>nodes := Map.empty\<rparr>) q"
    by (simp add: touch_candidate_def device_name_def)
  from find_touch_device_default [OF this] show ?thesis by (simp add: default_path_def)
qed

text \<open>C17 (invariant). Probing closes every descriptor it opens: after the locator
  the process holds exactly the descriptors it held before.\<close>

theorem find_touch_device_closes_fds:
  "fds_wf w \<Longrightarrow> fds (snd (snd (find_touch_device sz w))) = fds w"
  using probe_devices_fds [of w common_paths]
  by (auto simp: find_touch_device_def Let_def split: prod.splits option.splits)

theorem find_touch_device_closes_fds_witness:
  "fds (snd (snd (find_touch_device name_buf_size demo_world))) = Map.empty"
  using find_touch_device_closes_fds [OF demo_world_fds_wf] by simp

text \<open>C18 (equivalence). The four \<open>strstr\<close> tests accept exactly the names that contain
  \<open>touch\<close>, \<open>Touch\<close> or \<open>elan\<close>: the \<open>touchscreen\<close> test can never decide, and the
  match is case-sensitive.\<close>

theorem name_matches_iff:
  "name_matches nm \<longleftrightarrow> sublist ''touch'' nm \<or> sublist ''Touch'' nm \<or> sublist ''elan'' nm"
  by (auto simp: name_matches_def dest: sublist_touchscreen)



end
