(* ===== verification/Input_Event.thy ===== *)
theory Input_Event
  imports Prelude
begin

text \<open>
  The event record of the Linux input subsystem and the per-record step of the reader
  (\<open>src/openReader/src/touch_reader.c\<close>, \<open>read_touch_events\<close>, lines 70--73 and
  102--129): the touch state \<open>touch_x\<close>, \<open>touch_y\<close>, \<open>touch_active\<close>, how one full
  record updates it, and when a frame-complete record emits the coordinate pair.
  The event-type and event-code numbers are those of \<open>linux/input-event-codes.h\<close>.
\<close>

subsection \<open>The event record and the codes the reader tests\<close>

text \<open>\<open>struct input_event\<close>: a time stamp (never read by the program, so not kept),
  \<open>__u16 type\<close>, \<open>__u16 code\<close>, \<open>__s32 value\<close>.\<close>

record input_event =
  ev_type :: u16
  ev_code :: u16
  ev_value :: s32

definition EV_SYN :: u16 where "EV_SYN = 0x00"
definition EV_KEY :: u16 where "EV_KEY = 0x01"
definition EV_ABS :: u16 where "EV_ABS = 0x03"
definition SYN_REPORT :: u16 where "SYN_REPORT = 0"
definition ABS_X :: u16 where "ABS_X = 0x00"
definition ABS_Y :: u16 where "ABS_Y = 0x01"
definition ABS_MT_POSITION_X :: u16 where "ABS_MT_POSITION_X = 0x35"
definition ABS_MT_POSITION_Y :: u16 where "ABS_MT_POSITION_Y = 0x36"
definition BTN_TOUCH :: u16 where "BTN_TOUCH = 0x14a"

lemmas input_codes [model_simps] =
  EV_SYN_def EV_KEY_def EV_ABS_def SYN_REPORT_def ABS_X_def ABS_Y_def
  ABS_MT_POSITION_X_def ABS_MT_POSITION_Y_def BTN_TOUCH_def

text \<open>\<open>sizeof(struct input_event)\<close> on the program's target, 32-bit ARM
  (\<open>arm-linux-gnueabihf\<close>, per the source's header comment): an 8-byte
  \<open>struct timeval\<close>, two 16-bit and one 32-bit field.\<close>

definition input_event_size :: nat where
  "input_event_size = 16"

subsection \<open>The touch state\<close>

text \<open>The three \<open>int\<close> locals of \<open>read_touch_events\<close>, with \<open>-1\<close> as "not yet
  reported" for the coordinates.\<close>

record touch_state =
  touch_x :: int
  touch_y :: int
  touch_active :: int

definition init_touch :: touch_state where
  "init_touch = \<lparr>touch_x = -1, touch_y = -1, touch_active = 0\<rparr>"

text \<open>Which of the two printing branches of the frame-complete case was taken.\<close>

datatype emit_kind = Pressed | Released

datatype ev_outcome = Continue touch_state | Emit emit_kind int int

text \<open>
  One full record, lines 103--129.  \<open>ev.value\<close> is an \<open>__s32\<close> assigned to an
  \<open>int\<close> of the same width, so the stored value is its signed reading \<open>sint\<close>.
  The two emitting branches print the same line; the \<open>emit_kind\<close> only records which
  of them the code took.
\<close>

definition process_event :: "touch_state \<Rightarrow> input_event \<Rightarrow> ev_outcome" where
  "process_event st ev =
     (if ev_type ev = EV_ABS then
        (if ev_code ev = ABS_X \<or> ev_code ev = ABS_MT_POSITION_X
         then Continue (st\<lparr>touch_x := sint (ev_value ev)\<rparr>)
         else if ev_code ev = ABS_Y \<or> ev_code ev = ABS_MT_POSITION_Y
         then Continue (st\<lparr>touch_y := sint (ev_value ev)\<rparr>)
         else Continue st)
      else if ev_type ev = EV_KEY then
        (if ev_code ev = BTN_TOUCH
         then Continue (st\<lparr>touch_active := sint (ev_value ev)\<rparr>)
         else Continue st)
      else if ev_type ev = EV_SYN \<and> ev_code ev = SYN_REPORT then
        (if touch_active st \<noteq> 0 \<and> 0 \<le> touch_x st \<and> 0 \<le> touch_y st
         then Emit Pressed (touch_x st) (touch_y st)
         else if touch_active st = 0 \<and> 0 \<le> touch_x st \<and> 0 \<le> touch_y st
         then Emit Released (touch_x st) (touch_y st)
         else Continue st)
      else Continue st)"

text \<open>Record constructors for the four kinds of record the reader reacts to.\<close>

definition abs_event :: "u16 \<Rightarrow> int \<Rightarrow> input_event" where
  "abs_event c v = \<lparr>ev_type = EV_ABS, ev_code = c, ev_value = word_of_int v\<rparr>"

definition key_event :: "u16 \<Rightarrow> int \<Rightarrow> input_event" where
  "key_event c v = \<lparr>ev_type = EV_KEY, ev_code = c, ev_value = word_of_int v\<rparr>"

definition syn_report :: input_event where
  "syn_report = \<lparr>ev_type = EV_SYN, ev_code = SYN_REPORT, ev_value = 0\<rparr>"

text \<open>A record that completes a frame.\<close>

definition is_syn_report :: "input_event \<Rightarrow> bool" where
  "is_syn_report ev \<longleftrightarrow> ev_type ev = EV_SYN \<and> ev_code ev = SYN_REPORT"

text \<open>The fields hold values of a C \<open>int\<close>.\<close>

definition int32 :: "int \<Rightarrow> bool" where
  "int32 i \<longleftrightarrow> - (2 ^ 31) \<le> i \<and> i < 2 ^ 31"

definition touch_int32 :: "touch_state \<Rightarrow> bool" where
  "touch_int32 st \<longleftrightarrow> int32 (touch_x st) \<and> int32 (touch_y st) \<and> int32 (touch_active st)"

subsection \<open>Abstract view: coordinates as options\<close>

text \<open>
  The sentinel \<open>-1\<close> read as "unknown": a coordinate is known when it is not
  negative, which is the test the code applies before printing.  The abstract reader
  keeps two optional coordinates and emits a frame once both are known.
\<close>

record touch_abs =
  known_x :: "int option"
  known_y :: "int option"

definition coord_of :: "int \<Rightarrow> int option" where
  "coord_of v = (if 0 \<le> v then Some v else None)"

definition abs_touch :: "touch_state \<Rightarrow> touch_abs" where
  "abs_touch st = \<lparr>known_x = coord_of (touch_x st), known_y = coord_of (touch_y st)\<rparr>"

datatype abs_outcome = AContinue touch_abs | AEmit int int

definition is_x_code :: "u16 \<Rightarrow> bool" where
  "is_x_code c \<longleftrightarrow> c = ABS_X \<or> c = ABS_MT_POSITION_X"

definition is_y_code :: "u16 \<Rightarrow> bool" where
  "is_y_code c \<longleftrightarrow> c = ABS_Y \<or> c = ABS_MT_POSITION_Y"

definition abs_step :: "touch_abs \<Rightarrow> input_event \<Rightarrow> abs_outcome" where
  "abs_step a ev =
     (if ev_type ev = EV_ABS \<and> is_x_code (ev_code ev)
      then AContinue (a\<lparr>known_x := coord_of (sint (ev_value ev))\<rparr>)
      else if ev_type ev = EV_ABS \<and> is_y_code (ev_code ev)
      then AContinue (a\<lparr>known_y := coord_of (sint (ev_value ev))\<rparr>)
      else if is_syn_report ev
      then (case (known_x a, known_y a) of
              (Some x, Some y) \<Rightarrow> AEmit x y
            | _ \<Rightarrow> AContinue a)
      else AContinue a)"

fun abs_of_outcome :: "ev_outcome \<Rightarrow> abs_outcome" where
  "abs_of_outcome (Continue st) = AContinue (abs_touch st)"
| "abs_of_outcome (Emit k x y) = AEmit x y"

subsection \<open>Feeding a sequence of records\<close>

text \<open>The records of a run fed to the per-record step until one emits, and the same on
  the abstract side.\<close>

fun feed :: "touch_state \<Rightarrow> input_event list \<Rightarrow> ev_outcome" where
  "feed st [] = Continue st"
| "feed st (ev # evs) =
     (case process_event st ev of Continue st' \<Rightarrow> feed st' evs | Emit k x y \<Rightarrow> Emit k x y)"

fun abs_feed :: "touch_abs \<Rightarrow> input_event list \<Rightarrow> abs_outcome" where
  "abs_feed a [] = AContinue a"
| "abs_feed a (ev # evs) =
     (case abs_step a ev of AContinue a' \<Rightarrow> abs_feed a' evs | AEmit x y \<Rightarrow> AEmit x y)"

fun emitted_pair :: "ev_outcome \<Rightarrow> (int \<times> int) option" where
  "emitted_pair (Continue st) = None"
| "emitted_pair (Emit k x y) = Some (x, y)"

text \<open>The records the step reacts to: a frame end, an X or Y position, the touch
  button.  Everything else (other types, other codes, \<open>SYN_DROPPED\<close>) is ignored.\<close>

definition relevant_event :: "input_event \<Rightarrow> bool" where
  "relevant_event ev \<longleftrightarrow>
     is_syn_report ev \<or> (ev_type ev = EV_ABS \<and> (is_x_code (ev_code ev) \<or> is_y_code (ev_code ev))) \<or>
     (ev_type ev = EV_KEY \<and> ev_code ev = BTN_TOUCH)"

subsection \<open>Lemmas on the per-record step\<close>

lemma event_types_distinct [simp]:
  "EV_SYN \<noteq> EV_ABS" "EV_SYN \<noteq> EV_KEY" "EV_ABS \<noteq> EV_KEY"
  "EV_ABS \<noteq> EV_SYN" "EV_KEY \<noteq> EV_SYN" "EV_KEY \<noteq> EV_ABS"
  by (simp_all add: input_codes)

lemma axis_codes_distinct [simp]:
  "ABS_X \<noteq> ABS_Y" "ABS_X \<noteq> ABS_MT_POSITION_Y"
  "ABS_MT_POSITION_X \<noteq> ABS_Y" "ABS_MT_POSITION_X \<noteq> ABS_MT_POSITION_Y"
  by (simp_all add: input_codes)

lemma is_syn_report_syn_report [simp]: "is_syn_report syn_report"
  by (simp add: is_syn_report_def syn_report_def)

lemma sint_int32 [simp]: "int32 (sint (v :: s32))"
  using sint_ge [of v] sint_lt [of v] by (simp add: int32_def)

lemma sint_word_of_int_int32 [simp]:
  "int32 v \<Longrightarrow> sint (word_of_int v :: s32) = v"
  by (simp add: int32_def sint_sbintrunc' signed_take_bit_int_eq_self)

lemma init_touch_int32: "touch_int32 init_touch"
  by (simp add: touch_int32_def init_touch_def int32_def)

text \<open>The frame-complete case in one equation: the two printing branches of the code
  together print whenever both coordinates are not negative.\<close>

lemma process_event_syn:
  "is_syn_report ev \<Longrightarrow>
     process_event st ev =
       (if 0 \<le> touch_x st \<and> 0 \<le> touch_y st
        then Emit (if touch_active st \<noteq> 0 then Pressed else Released) (touch_x st) (touch_y st)
        else Continue st)"
  by (simp add: process_event_def is_syn_report_def)

lemma process_event_not_syn:
  "\<not> is_syn_report ev \<Longrightarrow>
     process_event st ev =
       Continue (if ev_type ev = EV_ABS \<and> is_x_code (ev_code ev) then st\<lparr>touch_x := sint (ev_value ev)\<rparr>
                 else if ev_type ev = EV_ABS \<and> is_y_code (ev_code ev) then st\<lparr>touch_y := sint (ev_value ev)\<rparr>
                 else if ev_type ev = EV_KEY \<and> ev_code ev = BTN_TOUCH then st\<lparr>touch_active := sint (ev_value ev)\<rparr>
                 else st)"
  by (auto simp: process_event_def is_syn_report_def is_x_code_def is_y_code_def)

lemmas process_event_cases = process_event_syn process_event_not_syn

lemma process_event_Emit_iff:
  "(process_event st ev = Emit k x y) \<longleftrightarrow>
     is_syn_report ev \<and> 0 \<le> touch_x st \<and> 0 \<le> touch_y st \<and> x = touch_x st \<and> y = touch_y st \<and>
     k = (if touch_active st \<noteq> 0 then Pressed else Released)"
  by (cases "is_syn_report ev") (auto simp: process_event_cases)

lemma process_event_int32:
  "touch_int32 st \<Longrightarrow> process_event st ev = Continue st' \<Longrightarrow> touch_int32 st'"
  by (cases "is_syn_report ev") (auto simp: process_event_cases touch_int32_def split: if_splits)

lemma process_event_refines:
  "abs_of_outcome (process_event st ev) = abs_step (abs_touch st) ev"
  by (cases "is_syn_report ev")
     (auto simp: process_event_cases abs_step_def abs_touch_def coord_of_def is_syn_report_def)

lemma process_event_irrelevant:
  "\<not> relevant_event ev \<Longrightarrow> process_event st ev = Continue st"
  by (auto simp: relevant_event_def process_event_not_syn)

lemma feed_Cons_Continue [simp]:
  "process_event st ev = Continue st' \<Longrightarrow> feed st (ev # evs) = feed st' evs"
  by simp

lemma feed_Cons_Emit [simp]:
  "process_event st ev = Emit k x y \<Longrightarrow> feed st (ev # evs) = Emit k x y"
  by simp

subsection \<open>Properties of the per-record step\<close>

text \<open>C2 (refinement). Feeding records to the reader's per-record step, read through
  the abstraction that takes a negative coordinate as unknown and drops
  \<open>touch_active\<close>, is the abstract reader over optional coordinates: a frame is
  printed exactly when both coordinates are known, and it prints them.\<close>

theorem feed_refines:
  "abs_of_outcome (feed st evs) = abs_feed (abs_touch st) evs"
proof (induction evs arbitrary: st)
  case Nil
  show ?case by simp
next
  case (Cons ev evs)
  show ?case
  proof (cases "process_event st ev")
    case (Continue st')
    have "abs_step (abs_touch st) ev = AContinue (abs_touch st')"
      using process_event_refines [of st ev] Continue by simp
    with Continue Cons.IH show ?thesis by simp
  next
    case (Emit k x y)
    have "abs_step (abs_touch st) ev = AEmit x y"
      using process_event_refines [of st ev] Emit by simp
    with Emit show ?thesis by simp
  qed
qed

text \<open>C19 (equivalence). The button state never decides the output: whatever
  \<open>touch_active\<close> holds, a record emits the same pair or none; the code's "touch
  active" and "touch released" branches are one behaviour.\<close>

theorem process_event_ignores_active:
  "emitted_pair (process_event (st\<lparr>touch_active := a\<rparr>) ev) = emitted_pair (process_event st ev)"
  by (cases "is_syn_report ev") (simp_all add: process_event_cases)

text \<open>C23 (safety). A coordinate the device reports as negative counts as unknown:
  after an X record with a negative value, the next frame-complete record prints
  nothing, although the coordinate was reported.\<close>

theorem negative_x_not_emitted:
  "ev_type ev = EV_ABS \<Longrightarrow> is_x_code (ev_code ev) \<Longrightarrow> sint (ev_value ev) < 0 \<Longrightarrow>
     process_event st ev = Continue st' \<Longrightarrow> process_event st' syn_report = Continue st'"
  by (auto simp: process_event_not_syn is_syn_report_def is_x_code_def
           intro: trans [OF process_event_syn [OF is_syn_report_syn_report]])

theorem negative_x_not_emitted_witness:
  "ev_type (abs_event ABS_X (-5)) = EV_ABS \<and> is_x_code (ev_code (abs_event ABS_X (-5))) \<and>
   sint (ev_value (abs_event ABS_X (-5))) < 0 \<and>
   process_event \<lparr>touch_x = 3, touch_y = 4, touch_active = 1\<rparr> (abs_event ABS_X (-5)) =
     Continue \<lparr>touch_x = -5, touch_y = 4, touch_active = 1\<rparr> \<and>
   process_event \<lparr>touch_x = -5, touch_y = 4, touch_active = 1\<rparr> syn_report =
     Continue \<lparr>touch_x = -5, touch_y = 4, touch_active = 1\<rparr>"
proof -
  have h1: "ev_type (abs_event ABS_X (-5)) = EV_ABS" and h2: "is_x_code (ev_code (abs_event ABS_X (-5)))"
    and h3: "sint (ev_value (abs_event ABS_X (-5))) < 0"
    by (simp_all add: abs_event_def is_x_code_def int32_def)
  have h4: "process_event \<lparr>touch_x = 3, touch_y = 4, touch_active = 1\<rparr> (abs_event ABS_X (-5)) =
     Continue \<lparr>touch_x = -5, touch_y = 4, touch_active = 1\<rparr>"
    by (simp add: process_event_def abs_event_def input_codes int32_def)
  show ?thesis using negative_x_not_emitted [OF h1 h2 h3 h4] h1 h2 h3 h4 by simp
qed

text \<open>C31 (equivalence). Records the step does not react to can be dropped from the
  stream without changing what the reader does: other event types, axis and key codes
  the code does not test, and synchronisation records other than \<open>SYN_REPORT\<close> (such
  as \<open>SYN_DROPPED\<close>) leave the touch state as it was.\<close>

theorem feed_filter_relevant:
  "feed st (filter relevant_event evs) = feed st evs"
proof (induction evs arbitrary: st)
  case Nil
  show ?case by simp
next
  case (Cons ev evs)
  show ?case
  proof (cases "relevant_event ev")
    case True
    with Cons.IH show ?thesis by (simp split: ev_outcome.split)
  next
    case False
    with Cons.IH show ?thesis by (simp add: process_event_irrelevant)
  qed
qed

end
