(* ===== verification/Event_Reader.thy ===== *)
theory Event_Reader
  imports Posix Input_Event
begin

text \<open>
  The event reader, \<open>read_touch_events\<close> of \<open>src/openReader/src/touch_reader.c\<close>
  (lines 68--134), with the signal handler it installs (lines 18--22).  The kernel's
  side of each blocking \<open>read\<close> is an environment action: a signal delivered while the
  process waits, or the value the call returns.  The loop consumes one such sequence;
  when it runs out the process is still blocked in \<open>read\<close>.
\<close>

subsection \<open>The signal handler and the environment of the loop\<close>

text \<open>Lines 18--22: the handler clears the global \<open>running\<close> flag.\<close>

definition signal_handler :: "world \<Rightarrow> world" where
  "signal_handler w = w\<lparr>running := False\<rparr>"

text \<open>Both termination signals have the program's handler (lines 84--85).\<close>

definition handles_all :: "world \<Rightarrow> bool" where
  "handles_all w \<longleftrightarrow> SIGINT \<in> set (handled w) \<and> SIGTERM \<in> set (handled w)"

text \<open>What one \<open>read(fd, &ev, sizeof(ev))\<close> returns: a byte count with the buffer it
  filled, or \<open>-1\<close> with an \<open>errno\<close>.\<close>

datatype read_result = RData nat input_event | RError errno

datatype env_act = Sig signal | Ret read_result

text \<open>
  A blocking \<open>read\<close>.  A signal delivered while it waits runs the handler when
  \<open>signal()\<close> installed one for it; then the call either fails with \<open>EINTR\<close> or, under
  \<open>SA_RESTART\<close>, goes on waiting.  A signal with no handler takes its default action
  and ends the process.  \<open>Waiting\<close>: nothing more arrives, the call never returns.
\<close>

datatype wait_result = Returned read_result "env_act list" | Waiting | Terminated signal

fun await_read :: "bool \<Rightarrow> world \<Rightarrow> env_act list \<Rightarrow> wait_result \<times> world" where
  "await_read rs w [] = (Waiting, w)"
| "await_read rs w (Sig s # acts) =
     (if s \<notin> set (handled w) then (Terminated s, w)
      else if rs then await_read rs (signal_handler w) acts
      else (Returned (RError EINTR) acts, signal_handler w))"
| "await_read rs w (Ret r # acts) = (Returned r acts, w)"

subsection \<open>One iteration and the loop\<close>

datatype iter_result = IContinue touch_state | IBreak errno | IEmit emit_kind int int

text \<open>Lines 90--129: what the loop body does with the value \<open>read\<close> returned.\<close>

definition reader_iter :: "touch_state \<Rightarrow> read_result \<Rightarrow> iter_result" where
  "reader_iter st r =
     (case r of
        RError e \<Rightarrow> if e = EINTR then IContinue st else IBreak e
      | RData n ev \<Rightarrow>
          if n < input_event_size then IContinue st
          else (case process_event st ev of
                  Continue st' \<Rightarrow> IContinue st'
                | Emit k x y \<Rightarrow> IEmit k x y))"

datatype loop_result =
  LEmitted emit_kind int int | LFailed errno | LStopped | LBlocked touch_state | LKilled signal

lemma await_read_shorter:
  "await_read rs w acts = (Returned r acts', w') \<Longrightarrow> length acts' < length acts"
  by (induction rs w acts rule: await_read.induct) (auto split: if_splits)

text \<open>Lines 87--130: \<open>while (running)\<close> around one read and one iteration.\<close>

function reader_loop :: "touch_state \<Rightarrow> world \<Rightarrow> env_act list \<Rightarrow> loop_result \<times> world" where
  "reader_loop st w acts =
     (if \<not> running w then (LStopped, w)
      else (case await_read (sa_restart w) w acts of
              (Waiting, w') \<Rightarrow> (LBlocked st, w')
            | (Terminated s, w') \<Rightarrow> (LKilled s, w')
            | (Returned r acts', w') \<Rightarrow>
                (case reader_iter st r of
                   IContinue st' \<Rightarrow> reader_loop st' w' acts'
                 | IBreak e \<Rightarrow> (LFailed e, w')
                 | IEmit k x y \<Rightarrow> (LEmitted k x y, w'))))"
  by pat_completeness auto
termination
  by (relation "measure (\<lambda>(st, w, acts). length acts)") (auto dest: sym [THEN await_read_shorter])

declare reader_loop.simps [simp del]

subsection \<open>The whole routine\<close>

text \<open>\<open>printf("%d,%d\n", touch_x, touch_y)\<close>, lines 117 and 124.\<close>

definition format_xy :: "int \<Rightarrow> int \<Rightarrow> string" where
  "format_xy x y = dec_int x @ CHR '','' # dec_int y @ [CHR ''\<newline>'']"

text \<open>
  Lines 68--134.  Opening fails: a diagnostic and status 1.  Otherwise the banner, the
  two handlers, and the loop from the initial touch state; every way out of the loop
  closes the descriptor and returns 0, the emitting one after printing the pair.
\<close>

definition read_touch_events :: "path \<Rightarrow> env_act list \<Rightarrow> world \<Rightarrow> status \<times> world" where
  "read_touch_events p acts w =
     (case sys_open w p of
        (Inl e, w1) \<Rightarrow> (Exited 1, emit_diag w1 (CannotOpen p e))
      | (Inr fd, w1) \<Rightarrow>
          (let w2 = emit_diag (emit_diag w1 (Listening p)) PressCtrlC;
               w3 = install_handler (install_handler w2 SIGINT) SIGTERM
           in (case reader_loop init_touch w3 acts of
                 (LEmitted k x y, w4) \<Rightarrow> (Exited 0, sys_close (write_stdout w4 (format_xy x y)) fd)
               | (LFailed e, w4) \<Rightarrow> (Exited 0, sys_close (emit_diag w4 (ReadError e)) fd)
               | (LStopped, w4) \<Rightarrow> (Exited 0, sys_close w4 fd)
               | (LBlocked st, w4) \<Rightarrow> (Blocked, w4)
               | (LKilled s, w4) \<Rightarrow> (Killed s, w4))))"

subsection \<open>Reference behaviour: the frames of the records delivered\<close>

text \<open>The full records a sequence of reads delivers, short reads and failures left out.\<close>

fun full_events :: "env_act list \<Rightarrow> input_event list" where
  "full_events [] = []"
| "full_events (Ret (RData n ev) # acts) =
     (if n < input_event_size then full_events acts else ev # full_events acts)"
| "full_events (_ # acts) = full_events acts"

text \<open>A read that neither delivers a signal nor fails for good.\<close>

fun quiet_act :: "env_act \<Rightarrow> bool" where
  "quiet_act (Sig s) = False"
| "quiet_act (Ret (RError e)) = (e = EINTR)"
| "quiet_act (Ret (RData n ev)) = True"

fun loop_of_outcome :: "ev_outcome \<Rightarrow> loop_result" where
  "loop_of_outcome (Continue st) = LBlocked st"
| "loop_of_outcome (Emit k x y) = LEmitted k x y"

text \<open>What the reader promises for the records a device delivers: the first frame
  that completes with both coordinates known is printed and ends the run; with none,
  the reader is still waiting.\<close>

definition reader_spec :: "input_event list \<Rightarrow> status \<times> string" where
  "reader_spec evs =
     (case feed init_touch evs of
        Emit k x y \<Rightarrow> (Exited 0, format_xy x y)
      | Continue st \<Rightarrow> (Blocked, []))"

text \<open>A reader of the program's output line: two decimal integers split at the comma,
  then the newline.\<close>

definition parse_xy :: "string \<Rightarrow> (int \<times> int) option" where
  "parse_xy s =
     (if s \<noteq> [] \<and> last s = CHR ''\<newline>'' then
        (let body = butlast s;
             a = takeWhile (\<lambda>c. c \<noteq> CHR '','') body;
             b = dropWhile (\<lambda>c. c \<noteq> CHR '','') body
         in (case b of
               [] \<Rightarrow> None
             | _ # rest \<Rightarrow>
                 (case (parse_int a, parse_int rest) of
                    (Some x, Some y) \<Rightarrow> Some (x, y)
                  | _ \<Rightarrow> None)))
      else None)"

subsection \<open>Lemmas on the blocking read and the loop\<close>

lemma signal_handler_idem [simp]: "signal_handler (signal_handler w) = signal_handler w"
  by (simp add: signal_handler_def)

lemma signal_handler_running [simp]: "running (signal_handler w) = False"
  by (simp add: signal_handler_def)

lemma signal_handler_fields [simp]:
  "sa_restart (signal_handler w) = sa_restart w" "nodes (signal_handler w) = nodes w"
  "fds (signal_handler w) = fds w" "next_fd (signal_handler w) = next_fd w"
  "handled (signal_handler w) = handled w" "stdout (signal_handler w) = stdout w"
  "stderr (signal_handler w) = stderr w"
  by (simp_all add: signal_handler_def)

text \<open>A read changes the world only through the handler.\<close>

lemma await_read_world:
  "await_read rs w acts = (x, w') \<Longrightarrow> w' = w \<or> w' = signal_handler w"
  by (induction rs w acts arbitrary: x rule: await_read.induct) (auto split: if_splits)

text \<open>What a loop result says about the touch state it came from.\<close>

fun result_from :: "(touch_state \<Rightarrow> bool) \<Rightarrow> loop_result \<Rightarrow> bool" where
  "result_from P (LEmitted k x y) = (\<exists>st r. P st \<and> reader_iter st r = IEmit k x y)"
| "result_from P (LBlocked st) = P st"
| "result_from P _ = True"

text \<open>The loop's induction principle: a property of the touch state that every
  continuing iteration keeps holds of the state the loop ends in, and the world changes
  at most by the handler having run.\<close>

lemma reader_loop_inv:
  assumes "reader_loop st w acts = (res, w')" and "P st"
    and step: "\<And>st r st'. P st \<Longrightarrow> reader_iter st r = IContinue st' \<Longrightarrow> P st'"
  shows "result_from P res \<and> (w' = w \<or> w' = signal_handler w)"
  using assms(1,2)
proof (induction st w acts arbitrary: res rule: reader_loop.induct)
  case (1 st w acts)
  show ?case
  proof (cases "running w")
    case False
    with "1.prems" show ?thesis by (simp add: reader_loop.simps)
  next
    case True
    show ?thesis
    proof (cases "await_read (sa_restart w) w acts")
      case (Pair a w1)
      from await_read_world [OF Pair] have w1: "w1 = w \<or> w1 = signal_handler w" .
      show ?thesis
      proof (cases a)
        case (Returned rd acts')
        show ?thesis
        proof (cases "reader_iter st rd")
          case (IContinue st')
          with "1.prems" True Pair Returned have run: "reader_loop st' w1 acts' = (res, w')"
            by (simp add: reader_loop.simps [of st w acts])
          from step [OF "1.prems"(2) IContinue] have "P st'" .
          with run "1.IH" [OF _ Pair [symmetric] Returned IContinue] True
          have "result_from P res \<and> (w' = w1 \<or> w' = signal_handler w1)" by simp
          with w1 show ?thesis by auto
        next
          case (IEmit k x y)
          with "1.prems"(2) have "result_from P (LEmitted k x y)" by auto
          with IEmit "1.prems" True Pair Returned w1 show ?thesis
            by (auto simp: reader_loop.simps [of st w acts])
        qed (use "1.prems" True Pair Returned w1 in \<open>auto simp: reader_loop.simps [of st w acts]\<close>)
      qed (use "1.prems" True Pair w1 in \<open>auto simp: reader_loop.simps [of st w acts]\<close>)
    qed
  qed
qed

lemma reader_loop_world:
  "reader_loop st w acts = (r, w') \<Longrightarrow> w' = w \<or> w' = signal_handler w"
  using reader_loop_inv [where P = "\<lambda>_. True"] by blast

lemma reader_loop_stopped [simp]: "\<not> running w \<Longrightarrow> reader_loop st w acts = (LStopped, w)"
  by (simp add: reader_loop.simps)

lemma reader_loop_Nil: "running w \<Longrightarrow> reader_loop st w [] = (LBlocked st, w)"
  by (simp add: reader_loop.simps)

lemma reader_loop_Ret:
  "running w \<Longrightarrow>
     reader_loop st w (Ret r # acts) =
       (case reader_iter st r of
          IContinue st' \<Rightarrow> reader_loop st' w acts
        | IBreak e \<Rightarrow> (LFailed e, w)
        | IEmit k x y \<Rightarrow> (LEmitted k x y, w))"
  by (simp add: reader_loop.simps [of st w "Ret r # acts"])

lemma reader_iter_EINTR [simp]: "reader_iter st (RError EINTR) = IContinue st"
  by (simp add: reader_iter_def)

lemma reader_iter_IEmit:
  "reader_iter st r = IEmit k x y \<Longrightarrow>
     \<exists>n ev. r = RData n ev \<and> input_event_size \<le> n \<and> process_event st ev = Emit k x y"
  by (auto simp: reader_iter_def split: read_result.splits if_splits ev_outcome.splits)

lemma reader_iter_IContinue_int32:
  "touch_int32 st \<Longrightarrow> reader_iter st r = IContinue st' \<Longrightarrow> touch_int32 st'"
  by (auto simp: reader_iter_def process_event_int32 split: read_result.splits if_splits ev_outcome.splits)

lemmas reader_loop_eqs = reader_loop_Nil reader_loop_Ret

lemma reader_loop_emitted:
  assumes "reader_loop init_touch w acts = (LEmitted k x y, w')"
  shows "0 \<le> x \<and> 0 \<le> y \<and> int32 x \<and> int32 y"
proof -
  have "result_from touch_int32 (LEmitted k x y)"
    using reader_loop_inv [of init_touch w acts _ w' touch_int32] assms init_touch_int32
      reader_iter_IContinue_int32 by blast
  then obtain st r where "touch_int32 st" and "reader_iter st r = IEmit k x y" by auto
  then show ?thesis
    by (auto simp: touch_int32_def process_event_Emit_iff dest!: reader_iter_IEmit)
qed

text \<open>Where no signal arrives and no read fails for good, the loop is the per-record
  step fed with the full records, in order: short reads and interrupted reads change
  nothing.\<close>

lemma reader_loop_quiet_append:
  "list_all quiet_act pre \<Longrightarrow> running w \<Longrightarrow>
     reader_loop st w (pre @ rest) =
       (case feed st (full_events pre) of
          Emit k x y \<Rightarrow> (LEmitted k x y, w)
        | Continue st' \<Rightarrow> reader_loop st' w rest)"
proof (induction pre arbitrary: st)
  case Nil
  then show ?case by simp
next
  case (Cons a pre)
  then show ?case
    by (cases a rule: quiet_act.cases)
       (auto simp: reader_loop_Ret reader_iter_def split: ev_outcome.splits)
qed

lemma reader_loop_quiet:
  "list_all quiet_act acts \<Longrightarrow> running w \<Longrightarrow>
     reader_loop st w acts = (loop_of_outcome (feed st (full_events acts)), w)"
  using reader_loop_quiet_append [of acts w st "[]"]
  by (simp add: reader_loop_Nil split: ev_outcome.splits)

text \<open>A signal while the read waits, without \<open>SA_RESTART\<close>: the read fails with
  \<open>EINTR\<close>, the loop re-tests \<open>running\<close> and stops.\<close>

lemma reader_loop_Sig_interrupts:
  "running w \<Longrightarrow> s \<in> set (handled w) \<Longrightarrow> \<not> sa_restart w \<Longrightarrow> reader_loop st w (Sig s # acts) = (LStopped, signal_handler w)"
  by (simp add: reader_loop.simps [of st w "Sig s # acts"])

text \<open>The same signal under \<open>SA_RESTART\<close>: the read goes on waiting and the record it
  then returns is processed before \<open>running\<close> is looked at again.\<close>

lemma reader_loop_Sig_restarts:
  "running w \<Longrightarrow> s \<in> set (handled w) \<Longrightarrow> sa_restart w \<Longrightarrow>
     reader_loop st w (Sig s # Ret r # acts) =
       (case reader_iter st r of
          IContinue st' \<Rightarrow> (LStopped, signal_handler w)
        | IBreak e \<Rightarrow> (LFailed e, signal_handler w)
        | IEmit k x y \<Rightarrow> (LEmitted k x y, signal_handler w))"
  by (simp add: reader_loop.simps [of st w "Sig s # Ret r # acts"] split: iter_result.splits)

text \<open>What a blocking read consumes: a read that never returns saw only signals; one
  that returns consumed a non-empty prefix of the actions, and the flag is still set
  exactly when no signal was among them.\<close>

lemma await_read_Waiting: "await_read rs w acts = (Waiting, w') \<Longrightarrow> \<forall>a\<in>set acts. \<exists>sg. a = Sig sg"
  by (induction rs w acts rule: await_read.induct) (auto split: if_splits)

lemma await_read_Returned:
  "await_read rs w acts = (Returned r acts', w') \<Longrightarrow>
     \<exists>c. acts = c @ acts' \<and> (running w' \<longleftrightarrow> running w \<and> (\<forall>sg. Sig sg \<notin> set c))"
proof (induction rs w acts rule: await_read.induct)
  case (2 rs w sg acts)
  from "2.prems" have h: "sg \<in> set (handled w)" by (auto split: if_splits)
  show ?case
  proof (cases rs)
    case True
    with "2.prems" h have "await_read rs (signal_handler w) acts = (Returned r acts', w')" by simp
    with "2.IH" h True obtain c where "acts = c @ acts'" and "\<not> running w'" by auto
    then show ?thesis by (intro exI [of _ "Sig sg # c"]) auto
  next
    case False
    with "2.prems" h show ?thesis by (intro exI [of _ "[Sig sg]"]) auto
  qed
qed auto

text \<open>With both handlers installed no signal takes its default action: the loop is
  never ended by one.\<close>

lemma handles_all_mem: "handles_all w \<Longrightarrow> sg \<in> set (handled w)"
  by (cases sg) (simp_all add: handles_all_def)

lemma handles_all_signal_handler [simp]: "handles_all (signal_handler w) = handles_all w"
  by (simp add: handles_all_def)

lemma await_read_handled: "handles_all w \<Longrightarrow> await_read rs w acts \<noteq> (Terminated sg, w')"
  by (induction rs w acts rule: await_read.induct) (auto simp: handles_all_mem)

lemma reader_loop_not_killed [simp]:
  "handles_all w \<Longrightarrow> (reader_loop st w acts = (LKilled sg, w')) = False"
proof (induction st w acts arbitrary: w' rule: reader_loop.induct)
  case (1 st w acts)
  show ?case
  proof (cases "running w")
    case True
    obtain a w1 where aw: "await_read (sa_restart w) w acts = (a, w1)" by fastforce
    from await_read_world [OF aw] "1.prems" have h1: "handles_all w1" by auto
    show ?thesis
    proof (cases a)
      case (Terminated sk)
      with aw await_read_handled [OF "1.prems"] show ?thesis by blast
    next
      case (Returned rd acts')
      show ?thesis
      proof (cases "reader_iter st rd")
        case (IContinue st')
        from "1.IH" [OF _ aw [symmetric] Returned IContinue h1] True aw Returned IContinue
        show ?thesis by (simp add: reader_loop.simps [of st w acts])
      qed (use True aw Returned in \<open>simp_all add: reader_loop.simps [of st w acts]\<close>)
    qed (use True aw in \<open>simp add: reader_loop.simps [of st w acts]\<close>)
  qed simp
qed

text \<open>A signal without a handler takes its default action while the loop reads.\<close>

lemma reader_loop_default_action:
  "running w \<Longrightarrow> sg \<notin> set (handled w) \<Longrightarrow> reader_loop st w (Sig sg # acts) = (LKilled sg, w)"
  by (simp add: reader_loop.simps [of st w "Sig sg # acts"])

text \<open>Once a signal has been delivered, the loop ends at the latest when a read returns
  after it: the iteration that follows finds \<open>running\<close> cleared.\<close>

lemma reader_loop_signal_ends:
  "acts = pre @ Sig sg # post \<Longrightarrow> Ret r \<in> set post \<Longrightarrow> reader_loop st w acts = (res, w') \<Longrightarrow>
     \<forall>st'. res \<noteq> LBlocked st'"
proof (induction st w acts arbitrary: pre res w' rule: reader_loop.induct)
  case (1 st w acts)
  show ?case
  proof (cases "running w")
    case False
    with "1.prems"(3) show ?thesis by simp
  next
    case True
    show ?thesis
    proof (cases "await_read (sa_restart w) w acts")
      case (Pair a w1)
      show ?thesis
      proof (cases a)
        case Waiting
        with Pair have "\<forall>a\<in>set acts. \<exists>sg. a = Sig sg" by (blast dest: await_read_Waiting)
        with "1.prems"(1,2) show ?thesis by auto
      next
        case (Terminated sk)
        with "1.prems"(3) True Pair show ?thesis by (auto simp: reader_loop.simps [of st w acts])
      next
        case (Returned rd acts')
        from Pair Returned obtain c where c: "acts = c @ acts'"
          and run1: "running w1 \<longleftrightarrow> (\<forall>sg. Sig sg \<notin> set c)"
          using True by (blast dest: await_read_Returned)
        show ?thesis
        proof (cases "reader_iter st rd")
          case (IContinue st'')
          with "1.prems"(3) True Pair Returned have run: "reader_loop st'' w1 acts' = (res, w')"
            by (simp add: reader_loop.simps [of st w acts])
          note IH = "1.IH" [OF _ Pair [symmetric] Returned IContinue _ "1.prems"(2) run]
          from c "1.prems"(1) have "c @ acts' = pre @ Sig sg # post" by simp
          then consider us where "c = pre @ us" "us @ acts' = Sig sg # post"
            | us where "c @ us = pre" "acts' = us @ Sig sg # post"
            by (auto simp: append_eq_append_conv2)
          then show ?thesis
          proof cases
            case (1 us)
            show ?thesis
            proof (cases us)
              case Nil
              with 1 True IH [of "[]"] show ?thesis by simp
            next
              case (Cons u us')
              with 1 have "Sig sg \<in> set c" by simp
              with run1 run have "res = LStopped" by auto
              then show ?thesis by simp
            qed
          next
            case (2 us)
            with True IH [of us] show ?thesis by simp
          qed
        qed (use "1.prems"(3) True Pair Returned in \<open>auto simp: reader_loop.simps [of st w acts]\<close>)
      qed
    qed
  qed
qed

subsection \<open>Lemmas on the whole routine\<close>

lemma read_touch_events_Inl:
  "sys_open w p = (Inl e, w1) \<Longrightarrow> read_touch_events p acts w = (Exited 1, emit_diag w (CannotOpen p e))"
  by (frule sys_open_Inl) (simp add: read_touch_events_def)

lemma read_touch_events_Inr:
  assumes "sys_open w p = (Inr fd, w1)"
    and "reader_loop init_touch
           (install_handler (install_handler (emit_diag (emit_diag w1 (Listening p)) PressCtrlC) SIGINT) SIGTERM)
           acts = (res, w4)"
  shows "read_touch_events p acts w =
           (case res of
              LEmitted k x y \<Rightarrow> (Exited 0, sys_close (write_stdout w4 (format_xy x y)) fd)
            | LFailed e \<Rightarrow> (Exited 0, sys_close (emit_diag w4 (ReadError e)) fd)
            | LStopped \<Rightarrow> (Exited 0, sys_close w4 fd)
            | LBlocked st \<Rightarrow> (Blocked, w4)
            | LKilled s \<Rightarrow> (Killed s, w4))"
  using assms by (simp add: read_touch_events_def Let_def split: loop_result.splits)

lemma read_touch_events_world:
  assumes "sys_open w p = (Inr fd, w1)"
  obtains res w4 where
    "reader_loop init_touch
       (install_handler (install_handler (emit_diag (emit_diag w1 (Listening p)) PressCtrlC) SIGINT) SIGTERM)
       acts = (res, w4)"
    and "fds w4 = fds w1" and "stdout w4 = stdout w1" and "nodes w4 = nodes w1"
proof -
  obtain res w4 where run: "reader_loop init_touch
       (install_handler (install_handler (emit_diag (emit_diag w1 (Listening p)) PressCtrlC) SIGINT) SIGTERM)
       acts = (res, w4)" by fastforce
  from reader_loop_world [OF run] have "fds w4 = fds w1 \<and> stdout w4 = stdout w1 \<and> nodes w4 = nodes w1"
    by auto
  with run that show ?thesis by blast
qed

abbreviation listen_world :: "path \<Rightarrow> world \<Rightarrow> world" where
  "listen_world p w1 \<equiv>
     install_handler (install_handler (emit_diag (emit_diag w1 (Listening p)) PressCtrlC) SIGINT) SIGTERM"

text \<open>The loop runs with both handlers installed.\<close>

lemma listen_world_handled [simp]: "sg \<in> set (handled (listen_world p w))"
  by (cases sg) simp_all

lemma handles_all_listen [simp]: "handles_all (listen_world p w)"
  by (simp add: handles_all_def)

lemma listen_world_running [simp]: "running (listen_world p w1) = running w1"
  by simp

text \<open>The records of the spec's first scenario: a single-touch press at (100, 200).\<close>

definition press_trace :: "env_act list" where
  "press_trace =
     [Ret (RData 16 (abs_event ABS_X 100)), Ret (RData 16 (abs_event ABS_Y 200)),
      Ret (RData 16 (key_event BTN_TOUCH 1)), Ret (RData 16 syn_report)]"

lemma press_trace_feed:
  "feed init_touch (full_events press_trace) = Emit Pressed 100 200"
  by (simp add: press_trace_def input_event_size_def process_event_def abs_event_def key_event_def
      syn_report_def init_touch_def input_codes int32_def)

text \<open>Every way out of the routine, in one lemma: what it returns, what it printed,
  and what is left of the descriptor it opened.\<close>

lemma read_touch_events_exits:
  assumes "read_touch_events p acts w = (s, w')"
  shows "(s = Exited 1 \<and> stdout w' = stdout w \<and> fds w' = fds w) \<or>
         (\<exists>fd w1. sys_open w p = (Inr fd, w1) \<and>
            ((s = Exited 0 \<and> fds w' = (fds w1)(fd := None) \<and>
               (stdout w' = stdout w \<or>
                (\<exists>k x y. reader_loop init_touch (listen_world p w1) acts = (LEmitted k x y, snd (reader_loop init_touch (listen_world p w1) acts)) \<and>
                   stdout w' = stdout w @ format_xy x y))) \<or>
             (s = Blocked \<and> stdout w' = stdout w \<and> fds w' = fds w1)))"
proof (cases "sys_open w p")
  case (Pair r w1)
  show ?thesis
  proof (cases r)
    case (Inl e)
    with Pair assms show ?thesis by (auto simp: read_touch_events_Inl)
  next
    case (Inr fd)
    with Pair have op: "sys_open w p = (Inr fd, w1)" by simp
    obtain res w4 where loop: "reader_loop init_touch (listen_world p w1) acts = (res, w4)"
      and f: "fds w4 = fds w1" and o: "stdout w4 = stdout w1"
      by (rule read_touch_events_world [OF op])
    from sys_open_fields [OF op] have o1: "stdout w1 = stdout w" by simp
    from read_touch_events_Inr [OF op loop] assms f o o1 loop op show ?thesis
      by (cases res) auto
  qed
qed

text \<open>The routine's status: 1 exactly when the path cannot be opened, otherwise 0 or
  still waiting.\<close>

lemma read_touch_events_status:
  assumes "read_touch_events p acts w = (s, w')"
  shows "(s = Exited 1) = (\<forall>n. nodes w p = Some n \<longrightarrow> \<not> nd_readable n) \<and>
         s \<in> {Exited 0, Exited 1, Blocked}"
proof (cases "sys_open w p")
  case (Pair r w1)
  show ?thesis
  proof (cases r)
    case (Inl e)
    with Pair assms have "s = Exited 1" by (simp add: read_touch_events_Inl)
    moreover from Pair Inl have "\<forall>n. nodes w p = Some n \<longrightarrow> \<not> nd_readable n"
      by (auto simp: sys_open_def split: option.splits if_splits)
    ultimately show ?thesis by simp
  next
    case (Inr fd)
    with Pair have op: "sys_open w p = (Inr fd, w1)" by simp
    then have "\<not> (\<forall>n. nodes w p = Some n \<longrightarrow> \<not> nd_readable n)"
      by (auto simp: sys_open_def split: option.splits if_splits)
    moreover obtain res w4 where loop: "reader_loop init_touch (listen_world p w1) acts = (res, w4)"
      by (rule read_touch_events_world [OF op])
    ultimately show ?thesis using read_touch_events_Inr [OF op loop] assms
      by (cases res) auto
  qed
qed

text \<open>While the routine waits the process holds one descriptor more than before: the
  device it reads.\<close>

lemma read_touch_events_Blocked:
  "read_touch_events p acts w = (Blocked, w') \<Longrightarrow> fds w' = (fds w)(next_fd w \<mapsto> p)"
  by (drule read_touch_events_exits) (auto dest: sys_open_Inr)

text \<open>On an openable device, a quiet prefix of reads that completes no frame leaves the
  loop where the prefix's records put the touch state.\<close>

lemma read_touch_events_after:
  assumes node: "nodes w p = Some n" "nd_readable n" and run: "running w"
    and quiet: "list_all quiet_act pre" and fed: "feed init_touch (full_events pre) = Continue st"
  obtains w1 where "sys_open w p = (Inr (next_fd w), w1)"
    and "reader_loop init_touch (listen_world p w1) (pre @ rest) = reader_loop st (listen_world p w1) rest"
    and "stdout w1 = stdout w" and "running w1" and "sa_restart w1 = sa_restart w"
proof -
  obtain w1 where op: "sys_open w p = (Inr (next_fd w), w1)"
    using sys_open_readable [OF node] .
  with run have r1: "running w1" and f: "stdout w1 = stdout w" "sa_restart w1 = sa_restart w"
    using sys_open_fields [OF op] by simp_all
  with quiet fed have "reader_loop init_touch (listen_world p w1) (pre @ rest) = reader_loop st (listen_world p w1) rest"
    by (simp add: reader_loop_quiet_append)
  with op r1 f that show ?thesis by blast
qed

lemma read_touch_events_quiet:
  assumes node: "nodes w p = Some n" "nd_readable n" and run: "running w"
    and quiet: "list_all quiet_act acts"
  obtains w1 where "sys_open w p = (Inr (next_fd w), w1)" and "stdout w1 = stdout w"
    and "read_touch_events p acts w =
           (case feed init_touch (full_events acts) of
              Emit k x y \<Rightarrow> (Exited 0, sys_close (write_stdout (listen_world p w1) (format_xy x y)) (next_fd w))
            | Continue st \<Rightarrow> (Blocked, listen_world p w1))"
proof -
  obtain w1 where op: "sys_open w p = (Inr (next_fd w), w1)"
    using sys_open_readable [OF node] .
  from sys_open_fields [OF op] run have "running (listen_world p w1)" and out: "stdout w1 = stdout w"
    by simp_all
  with quiet have "reader_loop init_touch (listen_world p w1) acts =
      (loop_of_outcome (feed init_touch (full_events acts)), listen_world p w1)"
    by (simp add: reader_loop_quiet)
  from read_touch_events_Inr [OF op this] op out that show ?thesis
    by (cases "feed init_touch (full_events acts)") simp_all
qed

text \<open>The diagnostics the routine writes, in order: the open error, or the banner
  and the Ctrl-C hint, followed by the read error when a read failed.\<close>

lemma read_touch_events_diags:
  assumes "read_touch_events p acts w = (s, w')"
  shows "(\<exists>e. stderr w' = stderr w @ [CannotOpen p e]) \<or>
         stderr w' = stderr w @ [Listening p, PressCtrlC] \<or>
         (\<exists>e. stderr w' = stderr w @ [Listening p, PressCtrlC, ReadError e])"
proof (cases "sys_open w p")
  case (Pair r w1)
  note f1 = sys_open_fields [OF Pair]
  show ?thesis
  proof (cases r)
    case (Inl e)
    with Pair assms show ?thesis by (auto simp: read_touch_events_Inl)
  next
    case (Inr fd)
    with Pair have op: "sys_open w p = (Inr fd, w1)" by simp
    obtain res w4 where loop: "reader_loop init_touch (listen_world p w1) acts = (res, w4)"
      by fastforce
    from reader_loop_world [OF loop] have "stderr w4 = stderr w1 @ [Listening p, PressCtrlC]"
      by auto
    with read_touch_events_Inr [OF op loop] assms f1 show ?thesis
      by (cases res) auto
  qed
qed

lemma read_touch_events_stderr:
  assumes "read_touch_events p acts w = (s, w')"
  shows "\<exists>ds. stderr w' = stderr w @ ds \<and> FailedToFind \<notin> set ds"
  using read_touch_events_diags [OF assms] by auto

lemma format_xy_length:
  "0 \<le> x \<Longrightarrow> int32 x \<Longrightarrow> 0 \<le> y \<Longrightarrow> int32 y \<Longrightarrow> length (format_xy x y) \<le> 22"
  using length_dec_int_nonneg [of x] length_dec_int_nonneg [of y]
  by (simp add: format_xy_def int32_def)

subsection \<open>Properties of the reader\<close>

text \<open>C1 (functional). On a device that can be opened, where no signal arrives and no
  read fails other than by interruption, the routine does what the frame specification
  says for the full records delivered: it prints the first completed frame with both
  coordinates known and exits 0, or, with none, it is still waiting and has printed
  nothing.  Short reads and interrupted reads are invisible.\<close>

theorem read_touch_events_refines_spec:
  assumes node: "nodes w p = Some n" "nd_readable n" and run: "running w"
    and quiet: "list_all quiet_act acts"
    and res: "read_touch_events p acts w = (s, w')"
  shows "s = fst (reader_spec (full_events acts)) \<and>
         stdout w' = stdout w @ snd (reader_spec (full_events acts))"
proof -
  obtain w1 where out: "stdout w1 = stdout w"
    and eq: "read_touch_events p acts w =
           (case feed init_touch (full_events acts) of
              Emit k x y \<Rightarrow> (Exited 0, sys_close (write_stdout (listen_world p w1) (format_xy x y)) (next_fd w))
            | Continue st \<Rightarrow> (Blocked, listen_world p w1))"
    by (rule read_touch_events_quiet [OF node run quiet])
  from eq res out show ?thesis
    by (cases "feed init_touch (full_events acts)") (auto simp: reader_spec_def)
qed

theorem read_touch_events_refines_spec_witness:
  "fst (read_touch_events ''/dev/input/event1'' press_trace demo_world) = Exited 0 \<and>
   stdout (snd (read_touch_events ''/dev/input/event1'' press_trace demo_world)) = ''100,200\<newline>''"
proof -
  have node: "nodes demo_world ''/dev/input/event1'' = Some \<lparr>nd_readable = True, nd_name = Some ''cyttsp-touchscreen''\<rparr>"
    by (simp add: demo_world_def)
  have q: "list_all quiet_act press_trace" by (simp add: press_trace_def)
  have "running demo_world" by (simp add: demo_world_def)
  from read_touch_events_refines_spec [OF node _ this q, of "fst (read_touch_events ''/dev/input/event1'' press_trace demo_world)"
      "snd (read_touch_events ''/dev/input/event1'' press_trace demo_world)"]
  show ?thesis
    by (simp add: press_trace_feed reader_spec_def format_xy_def dec_int_def dec_nat_large dec_nat_small)
qed

text \<open>C3 (safety). Whatever the device and the signals do, one call of the routine
  writes at most one line to standard output, and only when it exits 0: the decimal
  pair of two coordinates that are not negative and fit a 32-bit \<open>int\<close>.\<close>

theorem read_touch_events_single_line:
  assumes "read_touch_events p acts w = (s, w')"
  shows "stdout w' = stdout w \<or>
         (s = Exited 0 \<and> (\<exists>x y. 0 \<le> x \<and> 0 \<le> y \<and> int32 x \<and> int32 y \<and>
                                 stdout w' = stdout w @ format_xy x y))"
  using read_touch_events_exits [OF assms]
  by (auto dest!: reader_loop_emitted)

theorem read_touch_events_single_line_witness:
  "fst (read_touch_events ''/dev/input/event1'' press_trace demo_world) = Exited 0 \<and>
   stdout (snd (read_touch_events ''/dev/input/event1'' press_trace demo_world)) \<noteq> [] \<and>
   (\<exists>x y. 0 \<le> x \<and> 0 \<le> y \<and> int32 x \<and> int32 y \<and>
      stdout (snd (read_touch_events ''/dev/input/event1'' press_trace demo_world)) = format_xy x y)"
proof -
  have ne: "stdout (snd (read_touch_events ''/dev/input/event1'' press_trace demo_world)) \<noteq> []"
    using read_touch_events_refines_spec_witness by simp
  have ex: "read_touch_events ''/dev/input/event1'' press_trace demo_world =
     (Exited 0, snd (read_touch_events ''/dev/input/event1'' press_trace demo_world))"
    using read_touch_events_refines_spec_witness by (simp add: prod_eq_iff)
  from read_touch_events_single_line [OF ex] ne ex
  show ?thesis by (metis fst_conv self_append_conv2 demo_world_simps(1))
qed

text \<open>C4 (invariant). Every exit of the routine closes the descriptor it opened: when
  it returns, the process holds exactly the descriptors it held before the call.\<close>

theorem read_touch_events_closes_fd:
  "fds_wf w \<Longrightarrow> read_touch_events p acts w = (Exited c, w') \<Longrightarrow> fds w' = fds w"
  by (drule read_touch_events_exits) (auto dest: sys_open_close_fds)

theorem read_touch_events_closes_fd_witness:
  "fds_wf demo_world \<and>
   read_touch_events ''/dev/input/event1'' press_trace demo_world =
     (Exited 0, snd (read_touch_events ''/dev/input/event1'' press_trace demo_world)) \<and>
   fds (snd (read_touch_events ''/dev/input/event1'' press_trace demo_world)) = Map.empty"
proof -
  have ex: "read_touch_events ''/dev/input/event1'' press_trace demo_world =
     (Exited 0, snd (read_touch_events ''/dev/input/event1'' press_trace demo_world))"
    using read_touch_events_refines_spec_witness by (simp add: prod_eq_iff)
  from read_touch_events_closes_fd [OF demo_world_fds_wf ex] ex demo_world_fds_wf
  show ?thesis by simp
qed

text \<open>C9 (error). When the device cannot be opened (no such node, or no permission),
  the routine reports it on standard error and returns 1 without printing anything.\<close>

theorem read_touch_events_open_fails:
  "(\<forall>n. nodes w p = Some n \<longrightarrow> \<not> nd_readable n) \<Longrightarrow>
     \<exists>e. read_touch_events p acts w = (Exited 1, emit_diag w (CannotOpen p e))"
proof -
  assume none: "\<forall>n. nodes w p = Some n \<longrightarrow> \<not> nd_readable n"
  then obtain e where "sys_open w p = (Inl e, w)"
    by (cases "nodes w p") (auto simp: sys_open_def)
  then show ?thesis by (blast intro: read_touch_events_Inl)
qed

theorem read_touch_events_open_fails_witness:
  "\<exists>e. read_touch_events ''/dev/input/event2'' press_trace demo_world =
     (Exited 1, emit_diag demo_world (CannotOpen ''/dev/input/event2'' e))"
proof -
  have "\<forall>n. nodes demo_world ''/dev/input/event2'' = Some n \<longrightarrow> \<not> nd_readable n"
    by (simp add: demo_world_def)
  then show ?thesis by (rule read_touch_events_open_fails)
qed

text \<open>C10 (error). A read that fails other than by interruption ends the loop: the
  error goes to standard error, nothing is printed, and the routine returns 0, not the
  failure status the specification gives for fatal read errors.\<close>

theorem read_touch_events_read_error:
  assumes "nodes w p = Some n" "nd_readable n" "running w"
    and "list_all quiet_act pre" "feed init_touch (full_events pre) = Continue st"
    and err: "e \<noteq> EINTR"
    and res: "read_touch_events p (pre @ Ret (RError e) # acts) w = (s, w')"
  shows "s = Exited 0 \<and> stdout w' = stdout w \<and> last (stderr w') = ReadError e"
proof -
  obtain w1 where op: "sys_open w p = (Inr (next_fd w), w1)"
    and loop: "reader_loop init_touch (listen_world p w1) (pre @ Ret (RError e) # acts) =
                 reader_loop st (listen_world p w1) (Ret (RError e) # acts)"
    and o: "stdout w1 = stdout w" and r: "running w1"
    by (rule read_touch_events_after [OF assms(1-5)])
  from r err have "reader_loop st (listen_world p w1) (Ret (RError e) # acts) = (LFailed e, listen_world p w1)"
    by (simp add: reader_loop_Ret reader_iter_def)
  with loop read_touch_events_Inr [OF op] res o show ?thesis by auto
qed

theorem read_touch_events_read_error_witness:
  "read_touch_events ''/dev/input/event1'' ([] @ Ret (RError EIO) # []) demo_world =
     (Exited 0, snd (read_touch_events ''/dev/input/event1'' ([] @ Ret (RError EIO) # []) demo_world)) \<and>
   stdout (snd (read_touch_events ''/dev/input/event1'' ([] @ Ret (RError EIO) # []) demo_world)) = [] \<and>
   last (stderr (snd (read_touch_events ''/dev/input/event1'' ([] @ Ret (RError EIO) # []) demo_world))) = ReadError EIO"
proof -
  have node: "nodes demo_world ''/dev/input/event1'' = Some \<lparr>nd_readable = True, nd_name = Some ''cyttsp-touchscreen''\<rparr>"
    by (simp add: demo_world_def)
  have fed: "feed init_touch (full_events []) = Continue init_touch" by simp
  from read_touch_events_read_error [OF node _ _ _ fed, of EIO "[]"
      "fst (read_touch_events ''/dev/input/event1'' ([] @ Ret (RError EIO) # []) demo_world)"
      "snd (read_touch_events ''/dev/input/event1'' ([] @ Ret (RError EIO) # []) demo_world)"]
  show ?thesis by (simp add: prod_eq_iff)
qed

text \<open>C11 (safety). Without restarting reads, a termination signal that arrives while
  the reader waits, before any frame has completed, ends the routine with status 0 and
  no coordinate line.\<close>

theorem read_touch_events_signal_stops:
  assumes "nodes w p = Some n" "nd_readable n" "running w"
    and "list_all quiet_act pre" "feed init_touch (full_events pre) = Continue st"
    and intr: "\<not> sa_restart w"
    and res: "read_touch_events p (pre @ Sig sg # acts) w = (s, w')"
  shows "s = Exited 0 \<and> stdout w' = stdout w"
proof -
  obtain w1 where op: "sys_open w p = (Inr (next_fd w), w1)"
    and loop: "reader_loop init_touch (listen_world p w1) (pre @ Sig sg # acts) =
                 reader_loop st (listen_world p w1) (Sig sg # acts)"
    and o: "stdout w1 = stdout w" and r: "running w1" and sr: "sa_restart w1 = sa_restart w"
    by (rule read_touch_events_after [OF assms(1-5)])
  from r intr sr have "reader_loop st (listen_world p w1) (Sig sg # acts) =
      (LStopped, signal_handler (listen_world p w1))"
    by (simp add: reader_loop_Sig_interrupts [OF _ listen_world_handled])
  with loop read_touch_events_Inr [OF op] res o show ?thesis by auto
qed

theorem read_touch_events_signal_stops_witness:
  "read_touch_events ''/dev/input/event1'' ([] @ Sig SIGINT # press_trace) (demo_world\<lparr>sa_restart := False\<rparr>) =
     (Exited 0, snd (read_touch_events ''/dev/input/event1'' ([] @ Sig SIGINT # press_trace) (demo_world\<lparr>sa_restart := False\<rparr>))) \<and>
   stdout (snd (read_touch_events ''/dev/input/event1'' ([] @ Sig SIGINT # press_trace) (demo_world\<lparr>sa_restart := False\<rparr>))) = []"
proof -
  have node: "nodes (demo_world\<lparr>sa_restart := False\<rparr>) ''/dev/input/event1'' =
      Some \<lparr>nd_readable = True, nd_name = Some ''cyttsp-touchscreen''\<rparr>"
    by (simp add: demo_world_def)
  have fed: "feed init_touch (full_events []) = Continue init_touch" by simp
  from read_touch_events_signal_stops [OF node _ _ _ fed, of SIGINT press_trace
      "fst (read_touch_events ''/dev/input/event1'' ([] @ Sig SIGINT # press_trace) (demo_world\<lparr>sa_restart := False\<rparr>))"
      "snd (read_touch_events ''/dev/input/event1'' ([] @ Sig SIGINT # press_trace) (demo_world\<lparr>sa_restart := False\<rparr>))"]
  show ?thesis by (simp add: prod_eq_iff)
qed

text \<open>C12 (safety). Under \<open>SA_RESTART\<close>, which glibc's \<open>signal\<close> uses, a termination
  signal that arrives while the reader waits does not end the wait: the record the read
  then returns is still processed, and if it completes a frame with both coordinates
  known the pair is printed, unlike what the specification says of a signal received
  while blocked.\<close>

theorem read_touch_events_signal_restart:
  assumes "nodes w p = Some n" "nd_readable n" "running w"
    and "list_all quiet_act pre" "feed init_touch (full_events pre) = Continue st"
    and restart: "sa_restart w"
    and known: "0 \<le> touch_x st" "0 \<le> touch_y st" and full: "input_event_size \<le> m"
    and res: "read_touch_events p (pre @ Sig sg # Ret (RData m syn_report) # acts) w = (s, w')"
  shows "s = Exited 0 \<and> stdout w' = stdout w @ format_xy (touch_x st) (touch_y st)"
proof -
  obtain w1 where op: "sys_open w p = (Inr (next_fd w), w1)"
    and loop: "reader_loop init_touch (listen_world p w1) (pre @ Sig sg # Ret (RData m syn_report) # acts) =
                 reader_loop st (listen_world p w1) (Sig sg # Ret (RData m syn_report) # acts)"
    and o: "stdout w1 = stdout w" and r: "running w1" and sr: "sa_restart w1 = sa_restart w"
    by (rule read_touch_events_after [OF assms(1-5)])
  from known full have "reader_iter st (RData m syn_report) =
      IEmit (if touch_active st \<noteq> 0 then Pressed else Released) (touch_x st) (touch_y st)"
    by (simp add: reader_iter_def process_event_syn)
  with r restart sr have "reader_loop st (listen_world p w1) (Sig sg # Ret (RData m syn_report) # acts) =
      (LEmitted (if touch_active st \<noteq> 0 then Pressed else Released) (touch_x st) (touch_y st),
       signal_handler (listen_world p w1))"
    by (simp add: reader_loop_Sig_restarts [OF _ listen_world_handled])
  with loop read_touch_events_Inr [OF op] res o show ?thesis by auto
qed

definition xy_trace :: "env_act list" where
  "xy_trace = [Ret (RData 16 (abs_event ABS_X 5)), Ret (RData 16 (abs_event ABS_Y 7))]"

theorem read_touch_events_signal_restart_witness:
  "read_touch_events ''/dev/input/event1'' (xy_trace @ Sig SIGTERM # Ret (RData 16 syn_report) # []) demo_world =
     (Exited 0, snd (read_touch_events ''/dev/input/event1'' (xy_trace @ Sig SIGTERM # Ret (RData 16 syn_report) # []) demo_world)) \<and>
   stdout (snd (read_touch_events ''/dev/input/event1'' (xy_trace @ Sig SIGTERM # Ret (RData 16 syn_report) # []) demo_world)) = ''5,7\<newline>''"
proof -
  have node: "nodes demo_world ''/dev/input/event1'' = Some \<lparr>nd_readable = True, nd_name = Some ''cyttsp-touchscreen''\<rparr>"
    by (simp add: demo_world_def)
  have fed: "feed init_touch (full_events xy_trace) = Continue \<lparr>touch_x = 5, touch_y = 7, touch_active = 0\<rparr>"
    by (simp add: xy_trace_def input_event_size_def process_event_def abs_event_def init_touch_def
        input_codes int32_def)
  have q: "list_all quiet_act xy_trace" by (simp add: xy_trace_def)
  from read_touch_events_signal_restart [OF node _ _ q fed, where sg = SIGTERM and m = 16 and acts = "[]"
      and s = "fst (read_touch_events ''/dev/input/event1'' (xy_trace @ Sig SIGTERM # Ret (RData 16 syn_report) # []) demo_world)"
      and w' = "snd (read_touch_events ''/dev/input/event1'' (xy_trace @ Sig SIGTERM # Ret (RData 16 syn_report) # []) demo_world)"]
  show ?thesis
    by (simp add: prod_eq_iff input_event_size_def format_xy_def dec_int_def dec_nat_small)
qed

text \<open>C20 (bounds). One call adds at most 22 characters to standard output: two
  coordinates of at most ten digits each (they are below \<open>2^31\<close>), the comma and the
  newline.\<close>

theorem read_touch_events_output_bound:
  assumes "read_touch_events p acts w = (s, w')"
  shows "length (stdout w) \<le> length (stdout w') \<and> length (stdout w') \<le> length (stdout w) + 22"
  using read_touch_events_exits [OF assms]
  by (auto dest!: reader_loop_emitted intro: format_xy_length)

theorem read_touch_events_output_bound_witness:
  "length (stdout (snd (read_touch_events ''/dev/input/event1'' press_trace demo_world))) \<le> 22"
  using read_touch_events_output_bound [of "''/dev/input/event1''" press_trace demo_world
      "fst (read_touch_events ''/dev/input/event1'' press_trace demo_world)"
      "snd (read_touch_events ''/dev/input/event1'' press_trace demo_world)"]
  by simp

text \<open>C21 (roundtrip). The line the reader prints parses back to the pair it printed:
  a caller splitting it at the comma recovers both coordinates, for every pair of
  integers.\<close>

theorem parse_format_roundtrip: "parse_xy (format_xy x y) = Some (x, y)"
proof -
  have body: "butlast (format_xy x y) = dec_int x @ CHR '','' # dec_int y"
    by (simp add: format_xy_def butlast_append)
  have "takeWhile (\<lambda>c. c \<noteq> CHR '','') (dec_int x @ CHR '','' # dec_int y) =
      dec_int x @ takeWhile (\<lambda>c. c \<noteq> CHR '','') (CHR '','' # dec_int y)"
    by (rule takeWhile_append2) (use dec_int_no_comma in auto)
  then have tw: "takeWhile (\<lambda>c. c \<noteq> CHR '','') (dec_int x @ CHR '','' # dec_int y) = dec_int x"
    by simp
  have "dropWhile (\<lambda>c. c \<noteq> CHR '','') (dec_int x @ CHR '','' # dec_int y) =
      dropWhile (\<lambda>c. c \<noteq> CHR '','') (CHR '','' # dec_int y)"
    by (rule dropWhile_append2) (use dec_int_no_comma in auto)
  then have dw: "dropWhile (\<lambda>c. c \<noteq> CHR '','') (dec_int x @ CHR '','' # dec_int y) = CHR '','' # dec_int y"
    by simp
  have "format_xy x y \<noteq> [] \<and> last (format_xy x y) = CHR ''\<newline>''"
    by (simp add: format_xy_def)
  with body tw dw show ?thesis by (simp add: parse_xy_def)
qed

text \<open>C22 (liveness). A read that returns 0 bytes (end of file, as a regular file
  passed as the device path gives) counts as a short read: no number of them ends the
  loop, so on such a file the reader spins without exiting.\<close>

theorem read_touch_events_eof_spins:
  assumes "nodes w p = Some n" "nd_readable n" "running w"
    and res: "read_touch_events p (replicate k (Ret (RData 0 ev))) w = (s, w')"
  shows "s = Blocked \<and> stdout w' = stdout w"
proof -
  have q: "list_all quiet_act (replicate k (Ret (RData 0 ev)))" by (induction k) simp_all
  have f: "full_events (replicate k (Ret (RData 0 ev))) = []"
    by (induction k) (simp_all add: input_event_size_def)
  then have fed: "feed init_touch (full_events (replicate k (Ret (RData 0 ev)))) = Continue init_touch"
    by simp
  obtain w1 where op: "sys_open w p = (Inr (next_fd w), w1)"
    and loop: "reader_loop init_touch (listen_world p w1) (replicate k (Ret (RData 0 ev)) @ []) =
                 reader_loop init_touch (listen_world p w1) []"
    and o: "stdout w1 = stdout w" and r: "running w1"
    by (rule read_touch_events_after [OF assms(1-3) q fed])
  from loop r have "reader_loop init_touch (listen_world p w1) (replicate k (Ret (RData 0 ev))) =
      (LBlocked init_touch, listen_world p w1)"
    by (simp add: reader_loop_Nil)
  with read_touch_events_Inr [OF op] res o show ?thesis by auto
qed

theorem read_touch_events_eof_spins_witness:
  "fst (read_touch_events ''/dev/input/event1'' (replicate 1000 (Ret (RData 0 syn_report))) demo_world) = Blocked"
proof -
  have node: "nodes demo_world ''/dev/input/event1'' = Some \<lparr>nd_readable = True, nd_name = Some ''cyttsp-touchscreen''\<rparr>"
    by (simp add: demo_world_def)
  from read_touch_events_eof_spins [OF node _ _, of 1000 syn_report
      "fst (read_touch_events ''/dev/input/event1'' (replicate 1000 (Ret (RData 0 syn_report))) demo_world)"
      "snd (read_touch_events ''/dev/input/event1'' (replicate 1000 (Ret (RData 0 syn_report))) demo_world)"]
  show ?thesis by simp
qed

text \<open>C33 (termination). A termination signal ends the routine: once \<open>SIGINT\<close> or
  \<open>SIGTERM\<close> has been delivered, the routine no longer waits as soon as one read
  returns after it, whatever the records before and after; the \<open>while (running)\<close>
  test of line 87 is reached and fails.\<close>

theorem read_touch_events_signal_terminates:
  assumes res: "read_touch_events p (pre @ Sig sg # post) w = (s, w')" and ret: "Ret r \<in> set post"
  shows "s \<noteq> Blocked"
proof (cases "sys_open w p")
  case (Pair o1 w1)
  show ?thesis
  proof (cases o1)
    case (Inl e)
    with Pair res show ?thesis by (auto simp: read_touch_events_Inl)
  next
    case (Inr fd)
    with Pair have op: "sys_open w p = (Inr fd, w1)" by simp
    obtain res' w4 where loop: "reader_loop init_touch (listen_world p w1) (pre @ Sig sg # post) = (res', w4)"
      by fastforce
    from reader_loop_signal_ends [OF refl ret loop] have "\<forall>st'. res' \<noteq> LBlocked st'" .
    with read_touch_events_Inr [OF op loop] res show ?thesis by (cases res') auto
  qed
qed

theorem read_touch_events_signal_terminates_witness:
  "fst (read_touch_events ''/dev/input/event1'' ([] @ Sig SIGINT # [Ret (RData 16 (abs_event ABS_X 5))]) demo_world)
     \<noteq> Blocked"
  using read_touch_events_signal_terminates [of "''/dev/input/event1''" "[]" SIGINT
      "[Ret (RData 16 (abs_event ABS_X 5))]" demo_world
      "fst (read_touch_events ''/dev/input/event1'' ([] @ Sig SIGINT # [Ret (RData 16 (abs_event ABS_X 5))]) demo_world)"
      "snd (read_touch_events ''/dev/input/event1'' ([] @ Sig SIGINT # [Ret (RData 16 (abs_event ABS_X 5))]) demo_world)"
      "RData 16 (abs_event ABS_X 5)"]
  by simp

text \<open>C35 (safety). The handlers are installed before the first read (lines 84--85
  precede the loop), so no \<open>SIGINT\<close> or \<open>SIGTERM\<close> delivered while the routine
  reads takes its default action: the routine is never killed by one, it exits or is
  still waiting.  Without a handler the same signal would end the process
  (\<open>reader_loop_default_action\<close>).\<close>

theorem read_touch_events_never_killed:
  assumes res: "read_touch_events p acts w = (s, w')"
  shows "s \<noteq> Killed sg"
proof (cases "sys_open w p")
  case (Pair o1 w1)
  show ?thesis
  proof (cases o1)
    case (Inl e)
    with Pair res show ?thesis by (auto simp: read_touch_events_Inl)
  next
    case (Inr fd)
    with Pair have op: "sys_open w p = (Inr fd, w1)" by simp
    obtain res' w4 where loop: "reader_loop init_touch (listen_world p w1) acts = (res', w4)"
      by fastforce
    with read_touch_events_Inr [OF op loop] res show ?thesis by (cases res') auto
  qed
qed

theorem read_touch_events_never_killed_witness:
  "fst (read_touch_events ''/dev/input/event1'' [Sig SIGTERM] demo_world) \<noteq> Killed SIGTERM"
  using read_touch_events_never_killed [of "''/dev/input/event1''" "[Sig SIGTERM]" demo_world
      "fst (read_touch_events ''/dev/input/event1'' [Sig SIGTERM] demo_world)"
      "snd (read_touch_events ''/dev/input/event1'' [Sig SIGTERM] demo_world)" SIGTERM]
  by simp
end
