(* ===== verification/Touch_Main.thy ===== *)
theory Touch_Main
  imports Device_Locator Event_Reader
begin

text \<open>
  The entry point, \<open>main\<close> of \<open>src/openReader/src/touch_reader.c\<close> (lines 136--151):
  with a path argument it copies \<open>argv[1]\<close> into its 256-byte buffer, otherwise it
  asks the locator; then it runs the reader on the path and returns its status.  The
  three runs the specification lists as testable properties are worked through here.
\<close>

definition path_buf_size :: nat where
  "path_buf_size = 256"

text \<open>\<open>argv\<close> as the list of C strings it holds, \<open>argv[0]\<close> first; \<open>argc\<close> is its
  length.\<close>

definition main :: "string list \<Rightarrow> env_act list \<Rightarrow> world \<Rightarrow> status \<times> world" where
  "main argv acts w =
     (if 1 < length argv
      then read_touch_events (snprintf_s path_buf_size (argv ! 1)) acts w
      else (case find_touch_device path_buf_size w of
              (r, dp, w1) \<Rightarrow>
                if r \<noteq> 0 then (Exited 1, emit_diag w1 FailedToFind)
                else read_touch_events dp acts w1))"

text \<open>The path the program reads from: the argument when there is one, otherwise the
  locator's specification.\<close>

definition device_path :: "string list \<Rightarrow> world \<Rightarrow> path" where
  "device_path argv w = (if 1 < length argv then snprintf_s path_buf_size (argv ! 1) else locate w)"

subsection \<open>Lemmas on the entry point\<close>

lemma main_locate:
  assumes "length argv \<le> 1"
  obtains w1 where "main argv acts w = read_touch_events (locate w) acts w1"
    and "find_touch_device name_buf_size w = (0, locate w, w1)"
    and "nodes w1 = nodes w" and "stdout w1 = stdout w" and "running w1 = running w"
proof -
  have sz: "path_buf_size = name_buf_size" by (simp add: path_buf_size_def name_buf_size_def)
  obtain w1 where fd: "find_touch_device name_buf_size w = (0, locate w, w1)"
    and f: "nodes w1 = nodes w" "stdout w1 = stdout w" "running w1 = running w"
    using find_touch_device_path [of w] probe_devices_find [of common_paths w]
    by (auto simp: find_touch_device_eq split: prod.splits option.splits)
  from assms fd sz have "main argv acts w = read_touch_events (locate w) acts w1"
    by (simp add: main_def)
  with fd f that show ?thesis by blast
qed

text \<open>Both branches of \<open>main\<close> in one: the reader runs on \<open>device_path\<close> in a world that
  differs from the initial one only by the locator's diagnostics.\<close>

lemma main_device_path:
  obtains w1 where "main argv acts w = read_touch_events (device_path argv w) acts w1"
    and "nodes w1 = nodes w" and "stdout w1 = stdout w" and "running w1 = running w"
    and "sa_restart w1 = sa_restart w" and "fds_wf w \<Longrightarrow> fds w1 = fds w \<and> fds_wf w1"
    and "stderr w1 = stderr w @ (if 1 < length argv then [] else [locate_diag w])"
proof (cases "1 < length argv")
  case True
  then have "main argv acts w = read_touch_events (device_path argv w) acts w"
    by (simp add: main_def device_path_def)
  with True that show ?thesis by simp
next
  case False
  then have le: "length argv \<le> 1" by simp
  obtain w1 where m: "main argv acts w = read_touch_events (locate w) acts w1"
    and fd: "find_touch_device name_buf_size w = (0, locate w, w1)"
    and f: "nodes w1 = nodes w" "stdout w1 = stdout w" "running w1 = running w"
    by (rule main_locate [OF le])
  have wf: "fds_wf w \<Longrightarrow> fds w1 = fds w \<and> fds_wf w1"
    using find_touch_device_fds_wf [of w name_buf_size] fd by simp
  have sa: "sa_restart w1 = sa_restart w"
    using fd probe_devices_find [of common_paths w]
    by (auto simp: find_touch_device_eq split: prod.splits option.splits)
  have se: "stderr w1 = stderr w @ (if 1 < length argv then [] else [locate_diag w])"
    using fd find_touch_device_stderr [of w] False by simp
  from False have "device_path argv w = locate w" by (simp add: device_path_def)
  with m have "main argv acts w = read_touch_events (device_path argv w) acts w1" by simp
  from that [OF this f sa wf se] show ?thesis .
qed

text \<open>A run of \<open>main\<close> is a run of the reader on \<open>device_path\<close> from a world that
  differs from the initial one only by the locator's diagnostics.\<close>

lemma main_run:
  assumes "main argv acts w = (s, w')"
  obtains w1 where "read_touch_events (device_path argv w) acts w1 = (s, w')"
    and "nodes w1 = nodes w" and "stdout w1 = stdout w" and "running w1 = running w"
    and "fds_wf w \<Longrightarrow> fds w1 = fds w \<and> fds_wf w1"
    and "stderr w1 = stderr w @ (if 1 < length argv then [] else [locate_diag w])"
proof -
  obtain w1 where m: "main argv acts w = read_touch_events (device_path argv w) acts w1"
    and f: "nodes w1 = nodes w" "stdout w1 = stdout w" "running w1 = running w"
    and wf: "fds_wf w \<Longrightarrow> fds w1 = fds w \<and> fds_wf w1"
    and se: "stderr w1 = stderr w @ (if 1 < length argv then [] else [locate_diag w])"
    using main_device_path [of argv acts w] by blast
  from m assms have r: "read_touch_events (device_path argv w) acts w1 = (s, w')" by simp
  with f wf se that show ?thesis by blast
qed

lemma locate_demo_world: "locate demo_world = ''/dev/input/event1''"
  using demo_candidates by (simp add: locate_def common_paths_def)

text \<open>The spec's scenarios, run through \<open>main\<close> without argument on the device tree
  of \<open>demo_world\<close>, where the locator picks \<open>event1\<close>.\<close>

definition release_trace :: "env_act list" where
  "release_trace =
     [Ret (RData 16 (abs_event ABS_MT_POSITION_X 50)), Ret (RData 16 (abs_event ABS_MT_POSITION_Y 75)),
      Ret (RData 16 syn_report)]"

definition only_x_trace :: "env_act list" where
  "only_x_trace = [Ret (RData 16 (abs_event ABS_X 10)), Ret (RData 16 syn_report)]"

lemma main_demo_quiet:
  assumes "list_all quiet_act acts"
  obtains w' where
    "main [''touch_reader''] acts demo_world =
       (case feed init_touch (full_events acts) of Emit k x y \<Rightarrow> (Exited 0, w') | Continue st \<Rightarrow> (Blocked, w'))"
    and "stdout w' = (case feed init_touch (full_events acts) of Emit k x y \<Rightarrow> format_xy x y | Continue st \<Rightarrow> [])"
proof -
  obtain w1 where m: "main [''touch_reader''] acts demo_world = read_touch_events ''/dev/input/event1'' acts w1"
    and f: "nodes w1 = nodes demo_world" "stdout w1 = []" "running w1"
    using main_locate [of "[''touch_reader'']" acts demo_world] locate_demo_world by auto
  have node: "nodes w1 ''/dev/input/event1'' = Some \<lparr>nd_readable = True, nd_name = Some ''cyttsp-touchscreen''\<rparr>"
    using f by (simp add: demo_world_def)
  obtain w2 where o: "stdout w2 = stdout w1"
    and r: "read_touch_events ''/dev/input/event1'' acts w1 =
           (case feed init_touch (full_events acts) of
              Emit k x y \<Rightarrow> (Exited 0, sys_close (write_stdout (listen_world ''/dev/input/event1'' w2) (format_xy x y)) (next_fd w1))
            | Continue st \<Rightarrow> (Blocked, listen_world ''/dev/input/event1'' w2))"
    by (rule read_touch_events_quiet [OF node _ f(3) assms]) simp
  show ?thesis
  proof (cases "feed init_touch (full_events acts)")
    case (Continue st)
    with m r o f that [of "listen_world ''/dev/input/event1'' w2"] show ?thesis by simp
  next
    case (Emit k x y)
    with m r o f that [of "sys_close (write_stdout (listen_world ''/dev/input/event1'' w2) (format_xy x y)) (next_fd w1)"]
    show ?thesis by simp
  qed
qed

subsection \<open>Properties of the entry point\<close>

text \<open>C6 (functional). The spec's first scenario: with no argument, the locator finds
  the touch panel, and the records \<open>ABS_X = 100\<close>, \<open>ABS_Y = 200\<close>, \<open>BTN_TOUCH = 1\<close>,
  \<open>SYN_REPORT\<close> make the program print \<open>100,200\<close> and exit 0.\<close>

theorem main_spec_press:
  "fst (main [''touch_reader''] press_trace demo_world) = Exited 0 \<and>
   stdout (snd (main [''touch_reader''] press_trace demo_world)) = ''100,200\<newline>''"
proof -
  have "list_all quiet_act press_trace" by (simp add: press_trace_def)
  then obtain w' where m: "main [''touch_reader''] press_trace demo_world =
       (case feed init_touch (full_events press_trace) of Emit k x y \<Rightarrow> (Exited 0, w') | Continue st \<Rightarrow> (Blocked, w'))"
    and o: "stdout w' = (case feed init_touch (full_events press_trace) of Emit k x y \<Rightarrow> format_xy x y | Continue st \<Rightarrow> [])"
    by (rule main_demo_quiet)
  from m o press_trace_feed show ?thesis
    by (simp add: format_xy_def dec_int_def dec_nat_small dec_nat_large)
qed

text \<open>C7 (functional). The spec's second scenario: multi-touch positions 50 and 75 and
  a frame end, with no \<open>BTN_TOUCH\<close> ever reported, print \<open>50,75\<close> and exit 0 (the
  "released" branch of the code).\<close>

theorem main_spec_release:
  "fst (main [''touch_reader''] release_trace demo_world) = Exited 0 \<and>
   stdout (snd (main [''touch_reader''] release_trace demo_world)) = ''50,75\<newline>''"
proof -
  have q: "list_all quiet_act release_trace" by (simp add: release_trace_def)
  have fed: "feed init_touch (full_events release_trace) = Emit Released 50 75"
    by (simp add: release_trace_def input_event_size_def process_event_def abs_event_def
        syn_report_def init_touch_def input_codes int32_def)
  obtain w' where m: "main [''touch_reader''] release_trace demo_world =
       (case feed init_touch (full_events release_trace) of Emit k x y \<Rightarrow> (Exited 0, w') | Continue st \<Rightarrow> (Blocked, w'))"
    and o: "stdout w' = (case feed init_touch (full_events release_trace) of Emit k x y \<Rightarrow> format_xy x y | Continue st \<Rightarrow> [])"
    by (rule main_demo_quiet [OF q])
  from m o fed show ?thesis
    by (simp add: format_xy_def dec_int_def dec_nat_small dec_nat_large)
qed

text \<open>C8 (functional). The spec's third scenario: when only X has been reported, a
  frame end prints nothing and the program goes on waiting for records.\<close>

theorem main_only_x:
  "fst (main [''touch_reader''] only_x_trace demo_world) = Blocked \<and>
   stdout (snd (main [''touch_reader''] only_x_trace demo_world)) = []"
proof -
  have q: "list_all quiet_act only_x_trace" by (simp add: only_x_trace_def)
  have fed: "feed init_touch (full_events only_x_trace) = Continue (init_touch\<lparr>touch_x := 10\<rparr>)"
    by (simp add: only_x_trace_def input_event_size_def process_event_def abs_event_def
        syn_report_def init_touch_def input_codes int32_def)
  obtain w' where m: "main [''touch_reader''] only_x_trace demo_world =
       (case feed init_touch (full_events only_x_trace) of Emit k x y \<Rightarrow> (Exited 0, w') | Continue st \<Rightarrow> (Blocked, w'))"
    and o: "stdout w' = (case feed init_touch (full_events only_x_trace) of Emit k x y \<Rightarrow> format_xy x y | Continue st \<Rightarrow> [])"
    by (rule main_demo_quiet [OF q])
  from m o fed show ?thesis by simp
qed

text \<open>C24 (safety). A device path given on the command line is cut to 255 bytes by
  \<open>snprintf\<close> into the 256-byte buffer: for a longer argument the program opens a
  different path from the one it was given, and says nothing about it.\<close>

theorem main_argument_truncated:
  assumes "1 < length argv" and "NUL \<notin> set (argv ! 1)" and "255 < length (argv ! 1)"
  shows "main argv acts w = read_touch_events (take 255 (argv ! 1)) acts w \<and> take 255 (argv ! 1) \<noteq> argv ! 1"
proof -
  have "take 255 (argv ! 1) \<noteq> argv ! 1"
    using assms(3) by (metis length_take min.absorb2 order.strict_iff_not order.strict_implies_order)
  with assms show ?thesis by (simp add: main_def snprintf_s_def path_buf_size_def)
qed

theorem main_argument_truncated_witness:
  "main [''touch_reader'', replicate 300 (CHR ''a'')] [] demo_world =
     read_touch_events (replicate 255 (CHR ''a'')) [] demo_world"
proof -
  have "NUL \<notin> set ([''touch_reader'', replicate 300 (CHR ''a'')] ! 1)" by (simp add: NUL_def)
  from main_argument_truncated [of "[''touch_reader'', replicate 300 (CHR ''a'')]", OF _ this]
  show ?thesis by (simp add: take_replicate)
qed

text \<open>C25 (functional). Without argument the locator never fails, so the
  "Failed to find touch device" branch of \<open>main\<close> is dead: no run without argument
  writes that diagnostic.\<close>

theorem main_find_never_fails:
  assumes "length argv \<le> 1" and "FailedToFind \<notin> set (stderr w)"
  shows "FailedToFind \<notin> set (stderr (snd (main argv acts w)))"
proof -
  obtain w1 where m: "main argv acts w = read_touch_events (locate w) acts w1"
    and fd: "find_touch_device name_buf_size w = (0, locate w, w1)"
    by (rule main_locate [OF assms(1)])
  have "FailedToFind \<notin> set (stderr (snd (snd (find_touch_device name_buf_size w))))"
    using assms(2) probe_devices_find [of common_paths w]
    by (auto simp: find_touch_device_eq split: prod.splits option.splits)
  with fd have "FailedToFind \<notin> set (stderr w1)" by simp
  with m read_touch_events_stderr [of "locate w" acts w1] show ?thesis
    by (metis Un_iff prod.collapse set_append)
qed

theorem main_find_never_fails_witness:
  "FailedToFind \<notin> set (stderr (snd (main [''touch_reader''] press_trace demo_world)))"
  using main_find_never_fails [of "[''touch_reader'']" demo_world press_trace] by simp

text \<open>C26 (error). The locator's fallback is not a guarantee: with no touch candidate
  and no \<open>/dev/input/event1\<close>, a run without argument fails to open the default path and
  exits 1 without output.\<close>

theorem main_default_missing:
  assumes "length argv \<le> 1" and "\<forall>q \<in> set common_paths. \<not> touch_candidate w q"
    and "nodes w default_path = None"
  shows "fst (main argv acts w) = Exited 1 \<and> stdout (snd (main argv acts w)) = stdout w"
proof -
  obtain w1 where m: "main argv acts w = read_touch_events (locate w) acts w1"
    and f: "nodes w1 = nodes w" "stdout w1 = stdout w"
    by (rule main_locate [OF assms(1)])
  from assms(2) have "find (touch_candidate w) common_paths = None" by (simp add: find_None_iff)
  then have "locate w = default_path" by (simp add: locate_def)
  moreover from f assms(3) have "sys_open w1 default_path = (Inl ENOENT, w1)"
    by (simp add: sys_open_def)
  ultimately show ?thesis using m f by (simp add: read_touch_events_Inl)
qed

theorem main_default_missing_witness:
  "fst (main [''touch_reader''] press_trace (demo_world\<lparr>nodes := Map.empty\<rparr>)) = Exited 1"
proof -
  have "\<forall>q \<in> set common_paths. \<not> touch_candidate (demo_world\<lparr>nodes := Map.empty\<rparr>) q"
    by (simp add: touch_candidate_def device_name_def)
  from main_default_missing [of "[''touch_reader'']", OF _ this] show ?thesis by simp
qed

end
