(* ===== verification/Reader_Machine.thy ===== *)
theory Reader_Machine
  imports Event_Reader
begin

text \<open>
  The reader loop of \<open>read_touch_events\<close> (lines 87--130) as a state machine whose
  steps are the loop's control points, with the signal handler (lines 18--22) free to
  run between any two of them: a nondeterministic step relation, its reachable states
  and the invariant that at most one coordinate line is ever written.  A labelled
  version of the same steps, \<open>lstep\<close>, consumes the environment's events (a signal
  during a read, a value \<open>read\<close> returns) in order; the executable loop
  \<open>reader_loop\<close> is exactly its run on the events the loop consumed, and every such run
  is a run of the nondeterministic machine.
\<close>

datatype rpc = AtCheck | InRead | Done loop_result

record rstate =
  r_pc :: rpc
  r_touch :: touch_state
  r_running :: bool
  r_out :: "(int \<times> int) list"

text \<open>
  \<open>check\<close>: the test of \<open>while (running)\<close>; \<open>signal\<close>: the handler runs, wherever the
  loop is; \<open>read\<close>: the blocking read returns whatever the kernel gives, and the body
  acts on it as \<open>reader_iter\<close> says; the emitting branch writes its line; \<open>killed\<close>: a
  signal without a handler ends the process in the read (the machine does not track
  which signals have handlers, so this step is always possible).
\<close>

inductive mstep :: "rstate \<Rightarrow> rstate \<Rightarrow> bool" where
  check_run: "r_pc s = AtCheck \<Longrightarrow> r_running s \<Longrightarrow> mstep s (s\<lparr>r_pc := InRead\<rparr>)"
| check_stop: "r_pc s = AtCheck \<Longrightarrow> \<not> r_running s \<Longrightarrow> mstep s (s\<lparr>r_pc := Done LStopped\<rparr>)"
| signal: "r_pc s = AtCheck \<or> r_pc s = InRead \<Longrightarrow> mstep s (s\<lparr>r_running := False\<rparr>)"
| read_continue: "r_pc s = InRead \<Longrightarrow> reader_iter (r_touch s) r = IContinue st' \<Longrightarrow>
     mstep s (s\<lparr>r_pc := AtCheck, r_touch := st'\<rparr>)"
| read_break: "r_pc s = InRead \<Longrightarrow> reader_iter (r_touch s) r = IBreak e \<Longrightarrow>
     mstep s (s\<lparr>r_pc := Done (LFailed e)\<rparr>)"
| read_emit: "r_pc s = InRead \<Longrightarrow> reader_iter (r_touch s) r = IEmit k x y \<Longrightarrow>
     mstep s (s\<lparr>r_pc := Done (LEmitted k x y), r_out := r_out s @ [(x, y)]\<rparr>)"
| read_killed: "r_pc s = InRead \<Longrightarrow> mstep s (s\<lparr>r_pc := Done (LKilled sg)\<rparr>)"

definition minit :: "touch_state \<Rightarrow> bool \<Rightarrow> rstate" where
  "minit st run = \<lparr>r_pc = AtCheck, r_touch = st, r_running = run, r_out = []\<rparr>"

inductive mreach :: "rstate \<Rightarrow> bool" where
  start: "mreach (minit init_touch True)"
| step: "mreach s \<Longrightarrow> mstep s t \<Longrightarrow> mreach t"

text \<open>The invariant: the touch state holds C \<open>int\<close> values, and the output is empty
  or one pair of non-negative 32-bit coordinates written when the loop ended.\<close>

definition minv :: "rstate \<Rightarrow> bool" where
  "minv s \<longleftrightarrow> touch_int32 (r_touch s) \<and>
     (r_out s = [] \<or>
      (\<exists>k x y. r_pc s = Done (LEmitted k x y) \<and> r_out s = [(x, y)] \<and>
               0 \<le> x \<and> 0 \<le> y \<and> int32 x \<and> int32 y))"

text \<open>What a result of the executable loop looks like as a machine state.\<close>

fun result_state :: "loop_result \<Rightarrow> bool \<Rightarrow> rstate \<Rightarrow> bool" where
  "result_state (LBlocked st) run t \<longleftrightarrow>
     r_pc t = InRead \<and> r_touch t = st \<and> r_running t = run \<and> r_out t = []"
| "result_state (LEmitted k x y) run t \<longleftrightarrow>
     r_pc t = Done (LEmitted k x y) \<and> r_running t = run \<and> r_out t = [(x, y)]"
| "result_state res run t \<longleftrightarrow> r_pc t = Done res \<and> r_running t = run \<and> r_out t = []"

text \<open>
  The machine driven by the environment.  Its silent steps are the \<open>running\<close> test;
  every other step consumes one event at the blocking read: a signal (the handler
  runs; under \<open>SA_RESTART\<close> the read goes on waiting, otherwise it fails with
  \<open>EINTR\<close> and the body goes back to the test) or the value the read returns, which
  the body handles as \<open>reader_iter\<close> says.  Signals come only during reads, as in
  \<open>await_read\<close>, and have handlers (\<open>handles_all\<close>).
\<close>

inductive lstep :: "bool \<Rightarrow> rstate \<Rightarrow> env_act option \<Rightarrow> rstate \<Rightarrow> bool" for rs where
  l_run: "r_pc s = AtCheck \<Longrightarrow> r_running s \<Longrightarrow> lstep rs s None (s\<lparr>r_pc := InRead\<rparr>)"
| l_stop: "r_pc s = AtCheck \<Longrightarrow> \<not> r_running s \<Longrightarrow> lstep rs s None (s\<lparr>r_pc := Done LStopped\<rparr>)"
| l_sig_restart: "r_pc s = InRead \<Longrightarrow> rs \<Longrightarrow> lstep rs s (Some (Sig sg)) (s\<lparr>r_running := False\<rparr>)"
| l_sig_intr: "r_pc s = InRead \<Longrightarrow> \<not> rs \<Longrightarrow>
     lstep rs s (Some (Sig sg)) (s\<lparr>r_pc := AtCheck, r_running := False\<rparr>)"
| l_continue: "r_pc s = InRead \<Longrightarrow> reader_iter (r_touch s) r = IContinue st' \<Longrightarrow>
     lstep rs s (Some (Ret r)) (s\<lparr>r_pc := AtCheck, r_touch := st'\<rparr>)"
| l_break: "r_pc s = InRead \<Longrightarrow> reader_iter (r_touch s) r = IBreak e \<Longrightarrow>
     lstep rs s (Some (Ret r)) (s\<lparr>r_pc := Done (LFailed e)\<rparr>)"
| l_emit: "r_pc s = InRead \<Longrightarrow> reader_iter (r_touch s) r = IEmit k x y \<Longrightarrow>
     lstep rs s (Some (Ret r)) (s\<lparr>r_pc := Done (LEmitted k x y), r_out := r_out s @ [(x, y)]\<rparr>)"

text \<open>Runs of the labelled machine over a list of events, silent steps in between.\<close>

inductive ltrace :: "bool \<Rightarrow> rstate \<Rightarrow> env_act list \<Rightarrow> rstate \<Rightarrow> bool" for rs where
  lt_refl: "ltrace rs s [] s"
| lt_tau: "lstep rs s None t \<Longrightarrow> ltrace rs t evs u \<Longrightarrow> ltrace rs s evs u"
| lt_ev: "lstep rs s (Some e) t \<Longrightarrow> ltrace rs t evs u \<Longrightarrow> ltrace rs s (e # evs) u"

subsection \<open>Lemmas on the machine\<close>

lemma minv_init: "minv (minit init_touch True)"
  by (simp add: minv_def minit_def init_touch_int32)

lemma reader_iter_IEmit_bounds:
  "touch_int32 st \<Longrightarrow> reader_iter st r = IEmit k x y \<Longrightarrow> 0 \<le> x \<and> 0 \<le> y \<and> int32 x \<and> int32 y"
  by (auto simp: touch_int32_def process_event_Emit_iff dest!: reader_iter_IEmit)

lemma mstep_minv: "mstep s t \<Longrightarrow> minv s \<Longrightarrow> minv t"
proof (induction rule: mstep.induct)
  case (read_continue s r st')
  then show ?case
    by (auto simp: minv_def dest: reader_iter_IContinue_int32)
next
  case (read_emit s r k x y)
  then show ?case
    by (auto simp: minv_def dest: reader_iter_IEmit_bounds)
qed (auto simp: minv_def)

text \<open>A finished loop does not move again.\<close>

lemma mstep_from_Done: "mstep s t \<Longrightarrow> r_pc s \<noteq> Done res"
  by (induction rule: mstep.induct) auto

text \<open>Every labelled step is a run of the nondeterministic machine.\<close>

lemma lstep_mstep: "lstep rs s l t \<Longrightarrow> mstep\<^sup>*\<^sup>* s t"
proof (induction rule: lstep.induct)
  case (l_sig_intr s sg)
  have "mstep s (s\<lparr>r_running := False\<rparr>)" by (rule signal) (simp add: l_sig_intr.hyps(1))
  moreover have "mstep (s\<lparr>r_running := False\<rparr>)
      (s\<lparr>r_running := False, r_pc := AtCheck, r_touch := r_touch s\<rparr>)"
    by (rule read_continue [where r = "RError EINTR"]) (simp_all add: l_sig_intr.hyps(1))
  moreover have "s\<lparr>r_running := False, r_pc := AtCheck, r_touch := r_touch s\<rparr> =
      s\<lparr>r_pc := AtCheck, r_running := False\<rparr>" by (cases s) simp
  ultimately show ?case by (metis r_into_rtranclp rtranclp.rtrancl_into_rtrancl)
qed (auto intro: mstep.intros)

lemma ltrace_mstep: "ltrace rs s evs t \<Longrightarrow> mstep\<^sup>*\<^sup>* s t"
  by (induction rule: ltrace.induct) (auto dest: lstep_mstep intro: rtranclp_trans)

lemma ltrace_append: "ltrace rs s a t \<Longrightarrow> ltrace rs t b u \<Longrightarrow> ltrace rs s (a @ b) u"
  by (induction rule: ltrace.induct) (auto intro: ltrace.intros)

lemma ltrace_sigs:
  "rs \<Longrightarrow> r_pc s = InRead \<Longrightarrow> ltrace rs s (map Sig sgs) (s\<lparr>r_running := r_running s \<and> sgs = []\<rparr>)"
proof (induction sgs arbitrary: s)
  case Nil
  then have "s\<lparr>r_running := r_running s \<and> [] = []\<rparr> = s" by (cases s) simp
  then show ?case by (simp add: lt_refl)
next
  case (Cons sg sgs)
  have "lstep rs s (Some (Sig sg)) (s\<lparr>r_running := False\<rparr>)" by (rule l_sig_restart) (use Cons.prems in simp_all)
  with Cons.IH [of "s\<lparr>r_running := False\<rparr>"] Cons.prems show ?case by (simp add: lt_ev)
qed

text \<open>What one blocking read consumes, with both handlers installed: signals (only
  under \<open>SA_RESTART\<close>) and then the returned value or nothing more; or, without
  \<open>SA_RESTART\<close>, one signal that makes the read fail with \<open>EINTR\<close>.\<close>

lemma await_read_shape:
  assumes "await_read rs w acts = (a, w1)" and "handles_all w"
  shows "(\<exists>sgs. (sgs = [] \<or> rs) \<and> running w1 = (running w \<and> sgs = []) \<and>
            (a = Waiting \<and> acts = map Sig sgs \<or>
             (\<exists>r acts'. a = Returned r acts' \<and> acts = map Sig sgs @ Ret r # acts'))) \<or>
         (\<not> rs \<and> (\<exists>sg acts'. a = Returned (RError EINTR) acts' \<and> acts = Sig sg # acts' \<and> \<not> running w1))"
  using assms
proof (induction rs w acts arbitrary: a rule: await_read.induct)
  case (1 rs w)
  then show ?case by (intro disjI1 exI [of _ "[]"]) auto
next
  case (2 rs w sg acts)
  have h: "sg \<in> set (handled w)" using "2.prems"(2) by (rule handles_all_mem)
  show ?case
  proof (cases rs)
    case True
    with "2.prems"(1) h have aw: "await_read rs (signal_handler w) acts = (a, w1)" by simp
    note ih = "2.IH" [OF _ True aw]
    from ih h True "2.prems"(2) obtain sgs where
      "running w1 = (running (signal_handler w) \<and> sgs = [])"
      "a = Waiting \<and> acts = map Sig sgs \<or> (\<exists>r acts'. a = Returned r acts' \<and> acts = map Sig sgs @ Ret r # acts')"
      by auto
    with True show ?thesis by (intro disjI1 exI [of _ "sg # sgs"]) auto
  next
    case False
    with "2.prems" h show ?thesis by auto
  qed
next
  case (3 rs w r acts)
  then show ?case by (intro disjI1 exI [of _ "[]"]) auto
qed

lemma mreach_star: "mstep\<^sup>*\<^sup>* s t \<Longrightarrow> mreach s \<Longrightarrow> mreach t"
  by (induction rule: rtranclp_induct) (auto intro: mreach.step)

lemma mreach_minv: "mreach s \<Longrightarrow> minv s"
proof (induction rule: mreach.induct)
  case start
  show ?case by (rule minv_init)
next
  case (step s t)
  from step.hyps(2) step.IH show ?case by (rule mstep_minv)
qed

text \<open>The loop is the labelled machine: from the loop's entry state, the machine run
  on the events the loop consumed ends in the state of the loop's result, and the
  events left over come after a finished loop.\<close>

lemma reader_loop_ltrace:
  assumes "reader_loop st w acts = (res, w')" and "handles_all w"
    and "r_pc s = AtCheck" "r_touch s = st" "r_running s = running w" "r_out s = []"
  shows "\<exists>t pre post. acts = pre @ post \<and> ltrace (sa_restart w) s pre t \<and>
           result_state res (running w') t \<and> (post \<noteq> [] \<longrightarrow> (\<exists>d. r_pc t = Done d))"
  using assms
proof (induction st w acts arbitrary: s res w' rule: reader_loop.induct)
  case (1 st w acts)
  let ?rs = "sa_restart w"
  show ?case
  proof (cases "running w")
    case False
    with "1.prems"(1) have "res = LStopped" "w' = w" by simp_all
    moreover have "lstep ?rs s None (s\<lparr>r_pc := Done LStopped\<rparr>)"
      using "1.prems" False by (intro l_stop) simp_all
    then have "ltrace ?rs s [] (s\<lparr>r_pc := Done LStopped\<rparr>)" by (rule lt_tau [OF _ lt_refl])
    ultimately show ?thesis using "1.prems"
      by (intro exI [of _ "s\<lparr>r_pc := Done LStopped\<rparr>"] exI [of _ "[]"] exI [of _ acts]) simp
  next
    case True
    let ?s1 = "s\<lparr>r_pc := InRead\<rparr>"
    have run1: "lstep ?rs s None ?s1" using "1.prems" True by (intro l_run) simp_all
    obtain a w1 where aw: "await_read ?rs w acts = (a, w1)" by fastforce
    have h1: "handles_all w1" and rs1: "sa_restart w1 = ?rs"
      using await_read_world [OF aw] "1.prems"(2) by auto
    let ?s2 = "?s1\<lparr>r_running := running w1\<rparr>"
    have sigs: "ltrace ?rs s (map Sig sgs) ?s2"
      if "sgs = [] \<or> ?rs" "running w1 = (running w \<and> sgs = [])" for sgs
    proof -
      have "ltrace ?rs ?s1 (map Sig sgs) (?s1\<lparr>r_running := r_running ?s1 \<and> sgs = []\<rparr>)"
      proof (cases "sgs = []")
        case True
        then have "?s1\<lparr>r_running := r_running ?s1 \<and> sgs = []\<rparr> = ?s1" by (cases s) simp
        with True show ?thesis by (simp add: lt_refl)
      qed (use that ltrace_sigs [of ?rs ?s1 sgs] in simp)
      moreover have "?s1\<lparr>r_running := r_running ?s1 \<and> sgs = []\<rparr> = ?s2"
        using that(2) "1.prems"(5) by simp
      ultimately show ?thesis using lt_tau [OF run1] by simp
    qed
    from await_read_shape [OF aw "1.prems"(2)] consider
        (wait) sgs where "sgs = [] \<or> ?rs" "running w1 = (running w \<and> sgs = [])" "a = Waiting"
          "acts = map Sig sgs"
      | (ret) sgs r acts' where "sgs = [] \<or> ?rs" "running w1 = (running w \<and> sgs = [])"
          "a = Returned r acts'" "acts = map Sig sgs @ Ret r # acts'"
      | (intr) sg acts' where "\<not> ?rs" "a = Returned (RError EINTR) acts'" "acts = Sig sg # acts'"
          "\<not> running w1"
      by (elim disjE exE conjE) blast+
    then show ?thesis
    proof cases
      case (wait sgs)
      from "1.prems"(1) True aw wait(3) have "res = LBlocked st" "w' = w1"
        by (simp_all add: reader_loop.simps [of st w acts])
      with sigs [OF wait(1,2)] wait(4) "1.prems" show ?thesis
        by (intro exI [of _ ?s2] exI [of _ acts] exI [of _ "[]"]) simp
    next
      case (ret sgs r acts')
      note tr2 = sigs [OF ret(1,2)]
      show ?thesis
      proof (cases "reader_iter st r")
        case (IContinue st')
        let ?s3 = "?s2\<lparr>r_pc := AtCheck, r_touch := st'\<rparr>"
        have "lstep ?rs ?s2 (Some (Ret r)) ?s3" using IContinue "1.prems" by (intro l_continue) simp_all
        then have tr3: "ltrace ?rs s (map Sig sgs @ [Ret r]) ?s3"
          by (rule ltrace_append [OF tr2 lt_ev [OF _ lt_refl]])
        from "1.prems"(1) True aw ret(3) IContinue have loop: "reader_loop st' w1 acts' = (res, w')"
          by (simp add: reader_loop.simps [of st w acts])
        have s3: "r_pc ?s3 = AtCheck" "r_touch ?s3 = st'" "r_running ?s3 = running w1" "r_out ?s3 = []"
          using "1.prems"(6) by simp_all
        from "1.IH" [OF _ aw [symmetric] ret(3) IContinue loop h1 s3] True rs1
        obtain t pre post where split: "acts' = pre @ post" and tr4: "ltrace ?rs ?s3 pre t"
          and rest: "result_state res (running w') t" "post \<noteq> [] \<longrightarrow> (\<exists>d. r_pc t = Done d)"
          by auto
        have "ltrace ?rs s ((map Sig sgs @ [Ret r]) @ pre) t" by (rule ltrace_append [OF tr3 tr4])
        with split rest ret(4) show ?thesis
          by (intro exI [of _ t] exI [of _ "map Sig sgs @ Ret r # pre"] exI [of _ post]) simp
      next
        case (IBreak e)
        with "1.prems"(1) True aw ret(3) have "res = LFailed e" "w' = w1"
          by (simp_all add: reader_loop.simps [of st w acts])
        moreover have "lstep ?rs ?s2 (Some (Ret r)) (?s2\<lparr>r_pc := Done (LFailed e)\<rparr>)"
          using IBreak "1.prems" by (intro l_break) simp_all
        then have "ltrace ?rs s (map Sig sgs @ [Ret r]) (?s2\<lparr>r_pc := Done (LFailed e)\<rparr>)"
          by (rule ltrace_append [OF tr2 lt_ev [OF _ lt_refl]])
        ultimately show ?thesis using ret(4) "1.prems"
          by (intro exI [of _ "?s2\<lparr>r_pc := Done (LFailed e)\<rparr>"] exI [of _ "map Sig sgs @ [Ret r]"]
              exI [of _ acts']) simp
      next
        case (IEmit k x y)
        with "1.prems"(1) True aw ret(3) have "res = LEmitted k x y" "w' = w1"
          by (simp_all add: reader_loop.simps [of st w acts])
        moreover have "lstep ?rs ?s2 (Some (Ret r))
            (?s2\<lparr>r_pc := Done (LEmitted k x y), r_out := r_out ?s2 @ [(x, y)]\<rparr>)"
          using IEmit "1.prems" by (intro l_emit) simp_all
        then have "ltrace ?rs s (map Sig sgs @ [Ret r])
            (?s2\<lparr>r_pc := Done (LEmitted k x y), r_out := r_out ?s2 @ [(x, y)]\<rparr>)"
          by (rule ltrace_append [OF tr2 lt_ev [OF _ lt_refl]])
        ultimately show ?thesis using ret(4) "1.prems"
          by (intro exI [of _ "?s2\<lparr>r_pc := Done (LEmitted k x y), r_out := r_out ?s2 @ [(x, y)]\<rparr>"]
              exI [of _ "map Sig sgs @ [Ret r]"] exI [of _ acts']) simp
      qed
    next
      case (intr sg acts')
      from "1.prems"(1) True aw intr(2,4) have "res = LStopped" "w' = w1"
        by (simp_all add: reader_loop.simps [of st w acts])
      moreover have "lstep ?rs ?s1 (Some (Sig sg)) (?s1\<lparr>r_pc := AtCheck, r_running := False\<rparr>)"
        using intr(1) by (intro l_sig_intr) simp_all
      moreover have "lstep ?rs (?s1\<lparr>r_pc := AtCheck, r_running := False\<rparr>) None
          ((?s1\<lparr>r_pc := AtCheck, r_running := False\<rparr>)\<lparr>r_pc := Done LStopped\<rparr>)"
        by (rule l_stop) simp_all
      ultimately have "ltrace ?rs s [Sig sg]
          ((?s1\<lparr>r_pc := AtCheck, r_running := False\<rparr>)\<lparr>r_pc := Done LStopped\<rparr>)"
        by (intro lt_tau [OF run1] lt_ev [OF _ lt_tau [OF _ lt_refl]])
      with \<open>res = LStopped\<close> \<open>w' = w1\<close> intr(3,4) "1.prems" show ?thesis
        by (intro exI [of _ "(?s1\<lparr>r_pc := AtCheck, r_running := False\<rparr>)\<lparr>r_pc := Done LStopped\<rparr>"]
            exI [of _ "[Sig sg]"] exI [of _ acts']) simp
    qed
  qed
qed

text \<open>A run of the machine that writes a line: X = 1, Y = 2, then a frame end.\<close>

lemma mreach_demo:
  "mreach (((((((minit init_touch True)\<lparr>r_pc := InRead\<rparr>)
      \<lparr>r_pc := AtCheck, r_touch := init_touch\<lparr>touch_x := 1\<rparr>\<rparr>)\<lparr>r_pc := InRead\<rparr>)
      \<lparr>r_pc := AtCheck, r_touch := init_touch\<lparr>touch_x := 1, touch_y := 2\<rparr>\<rparr>)\<lparr>r_pc := InRead\<rparr>)
      \<lparr>r_pc := Done (LEmitted Released 1 2), r_out := [(1, 2)]\<rparr>)"
proof -
  let ?s0 = "minit init_touch True"
  let ?t1 = "init_touch\<lparr>touch_x := 1\<rparr>"
  let ?t2 = "init_touch\<lparr>touch_x := 1, touch_y := 2\<rparr>"
  have ix: "reader_iter init_touch (RData 16 (abs_event ABS_X 1)) = IContinue ?t1"
    by (simp add: reader_iter_def input_event_size_def process_event_def abs_event_def input_codes
        int32_def init_touch_def)
  have iy: "reader_iter ?t1 (RData 16 (abs_event ABS_Y 2)) = IContinue ?t2"
    by (simp add: reader_iter_def input_event_size_def process_event_def abs_event_def input_codes
        int32_def init_touch_def)
  have isyn: "reader_iter ?t2 (RData 16 syn_report) = IEmit Released 1 2"
    by (simp add: reader_iter_def input_event_size_def process_event_def syn_report_def input_codes
        init_touch_def)
  have r0: "mreach ?s0" by (rule mreach.start)
  have r1: "mreach (?s0\<lparr>r_pc := InRead\<rparr>)"
    by (rule mreach.step [OF r0 check_run]) (simp_all add: minit_def)
  have r2: "mreach ((?s0\<lparr>r_pc := InRead\<rparr>)\<lparr>r_pc := AtCheck, r_touch := ?t1\<rparr>)"
    by (rule mreach.step [OF r1 read_continue [where r = "RData 16 (abs_event ABS_X 1)"]])
       (simp_all add: minit_def ix)
  have r3: "mreach (((?s0\<lparr>r_pc := InRead\<rparr>)\<lparr>r_pc := AtCheck, r_touch := ?t1\<rparr>)\<lparr>r_pc := InRead\<rparr>)"
    by (rule mreach.step [OF r2 check_run]) (simp_all add: minit_def)
  have r4: "mreach ((((?s0\<lparr>r_pc := InRead\<rparr>)\<lparr>r_pc := AtCheck, r_touch := ?t1\<rparr>)\<lparr>r_pc := InRead\<rparr>)
      \<lparr>r_pc := AtCheck, r_touch := ?t2\<rparr>)"
    by (rule mreach.step [OF r3 read_continue [where r = "RData 16 (abs_event ABS_Y 2)"]])
       (simp_all add: iy)
  have r5: "mreach (((((?s0\<lparr>r_pc := InRead\<rparr>)\<lparr>r_pc := AtCheck, r_touch := ?t1\<rparr>)\<lparr>r_pc := InRead\<rparr>)
      \<lparr>r_pc := AtCheck, r_touch := ?t2\<rparr>)\<lparr>r_pc := InRead\<rparr>)"
    by (rule mreach.step [OF r4 check_run]) (simp_all add: minit_def)
  let ?s5 = "((((?s0\<lparr>r_pc := InRead\<rparr>)\<lparr>r_pc := AtCheck, r_touch := ?t1\<rparr>)\<lparr>r_pc := InRead\<rparr>)
      \<lparr>r_pc := AtCheck, r_touch := ?t2\<rparr>)\<lparr>r_pc := InRead\<rparr>"
  have "mstep ?s5 (?s5\<lparr>r_pc := Done (LEmitted Released 1 2), r_out := r_out ?s5 @ [(1, 2)]\<rparr>)"
    by (rule read_emit [where r = "RData 16 syn_report"]) (simp_all add: isyn)
  from mreach.step [OF r5 this] show ?thesis by (simp add: minit_def)
qed

subsection \<open>Properties of the machine\<close>

text \<open>C13 (invariant). Whatever the order in which records, interrupted reads and
  termination signals arrive, every reachable state of the loop has written at most
  one coordinate line, and only in the state where the loop ended by printing it; the
  pair is non-negative and fits a 32-bit \<open>int\<close>.\<close>

theorem mreach_at_most_one_line:
  assumes "mreach s"
  shows "length (r_out s) \<le> 1 \<and> list_all (\<lambda>(x, y). 0 \<le> x \<and> 0 \<le> y \<and> int32 x \<and> int32 y) (r_out s) \<and>
         (r_out s = [] \<or> (\<exists>k x y. r_pc s = Done (LEmitted k x y)))"
  using mreach_minv [OF assms] by (auto simp: minv_def)

theorem mreach_at_most_one_line_witness:
  "r_out ((((((((minit init_touch True)\<lparr>r_pc := InRead\<rparr>)
      \<lparr>r_pc := AtCheck, r_touch := init_touch\<lparr>touch_x := 1\<rparr>\<rparr>)\<lparr>r_pc := InRead\<rparr>)
      \<lparr>r_pc := AtCheck, r_touch := init_touch\<lparr>touch_x := 1, touch_y := 2\<rparr>\<rparr>)\<lparr>r_pc := InRead\<rparr>)
      \<lparr>r_pc := Done (LEmitted Released 1 2), r_out := [(1, 2)]\<rparr>)) = [(1, 2)]"
  using mreach_at_most_one_line [OF mreach_demo] by simp

text \<open>C14 (refinement). The loop is the environment-driven machine: for every
  environment, the loop's result is the state the labelled machine reaches from the
  loop's entry on the events the loop consumed, in order (signals during reads,
  values returned); the events left over come only after a finished loop; and that
  state is reachable in the nondeterministic machine of C13.  The machine is
  deterministic on its events, so a loop that read on after a signal or after a fatal
  error, or stopped early, would reach a different state.\<close>

theorem reader_loop_refines_machine:
  assumes "reader_loop init_touch w acts = (res, w')" and "running w" and "handles_all w"
  shows "\<exists>t pre post. acts = pre @ post \<and> ltrace (sa_restart w) (minit init_touch True) pre t \<and>
           mreach t \<and> result_state res (running w') t \<and> (post \<noteq> [] \<longrightarrow> (\<exists>d. r_pc t = Done d))"
proof -
  have "r_pc (minit init_touch True) = AtCheck" "r_touch (minit init_touch True) = init_touch"
    "r_running (minit init_touch True) = running w" "r_out (minit init_touch True) = []"
    using assms(2) by (simp_all add: minit_def)
  from reader_loop_ltrace [OF assms(1,3) this] obtain t pre post where
    "acts = pre @ post" "ltrace (sa_restart w) (minit init_touch True) pre t"
    "result_state res (running w') t" "post \<noteq> [] \<longrightarrow> (\<exists>d. r_pc t = Done d)" by blast
  moreover from ltrace_mstep [OF this(2)] mreach.start have "mreach t" by (rule mreach_star)
  ultimately show ?thesis by blast
qed

theorem reader_loop_refines_machine_witness:
  "\<exists>t pre post. press_trace = pre @ post \<and>
     ltrace (sa_restart (listen_world ''/dev/input/event1'' demo_world)) (minit init_touch True) pre t \<and>
     mreach t \<and>
     result_state (fst (reader_loop init_touch (listen_world ''/dev/input/event1'' demo_world) press_trace))
       (running (snd (reader_loop init_touch (listen_world ''/dev/input/event1'' demo_world) press_trace))) t \<and>
     (post \<noteq> [] \<longrightarrow> (\<exists>d. r_pc t = Done d))"
  using reader_loop_refines_machine [of "listen_world ''/dev/input/event1'' demo_world" press_trace
      "fst (reader_loop init_touch (listen_world ''/dev/input/event1'' demo_world) press_trace)"
      "snd (reader_loop init_touch (listen_world ''/dev/input/event1'' demo_world) press_trace)"]
  by simp

end
