(* ===== verification/Spec2Isabelle.thy ===== *)
theory Spec2Isabelle
  imports Touch_Main Reader_Machine
begin

text \<open>
  \<^bold>\<open>A verification model of the Kindle touch reader\<close>
  (\<^verbatim>\<open>src/openReader/src/touch_reader.c\<close>).

  \<^bold>\<open>The program.\<close>  One C file with three routines used in sequence.  \<open>main\<close>
  (lines 136--151) takes a device path from \<open>argv[1]\<close> or asks \<open>find_touch_device\<close>
  (lines 25--65), which opens \<open>/dev/input/event0\<close>..\<open>event2\<close> in turn, reads each
  device's name with the \<open>EVIOCGNAME\<close> ioctl and picks the first whose name contains
  \<open>touch\<close>, \<open>Touch\<close>, \<open>touchscreen\<close> or \<open>elan\<close>, else \<open>/dev/input/event1\<close>.
  \<open>read_touch_events\<close> (lines 68--134) opens the path, installs \<open>signal_handler\<close>
  (lines 18--22, which clears the global \<open>running\<close> flag) for \<open>SIGINT\<close> and
  \<open>SIGTERM\<close>, and loops reading \<open>struct input_event\<close> records: absolute X/Y records
  (single- or multi-touch) update \<open>touch_x\<close>/\<open>touch_y\<close>, \<open>BTN_TOUCH\<close> updates
  \<open>touch_active\<close>, and a \<open>SYN_REPORT\<close> with both coordinates not negative prints
  \<open>x,y\<close>, closes the device and returns 0.  The only state shared between the parts is
  the path string and, between the handler and the loop, the \<open>running\<close> flag.

  \<^bold>\<open>Theories and correspondence.\<close>
  \<^item> \<open>Prelude\<close>: the C integer types as words (\<open>u16\<close>, \<open>s32\<close>), C strings
    (\<open>c_string\<close>, \<open>snprintf_s\<close>, \<open>strstr\<close> proved equal to \<open>sublist\<close>), the
    decimal rendering \<open>dec_int\<close> of \<open>printf("%d")\<close> with its parser and round trip,
    and shared list lemmas.  These are libc contracts, not repository code.
  \<^item> \<open>Posix\<close>: the operating system as a record \<open>world\<close>: device nodes, the
    descriptor table, the \<open>running\<close> flag, installed handlers and whether the
    library restarts interrupted reads (\<open>sa_restart\<close>), standard output as the exact
    characters written and standard error as one \<open>diag\<close> per \<open>fprintf\<close>;
    \<open>sys_open\<close>, \<open>sys_close\<close>, \<open>sys_ioctl_name\<close> (the kernel's bounded copy of the
    name), \<open>install_handler\<close>.  Errors are \<open>errno + fd\<close> values.
  \<^item> \<open>Input_Event\<close>: \<open>struct input_event\<close> as a record of words, the event codes of
    \<open>linux/input-event-codes.h\<close>, the locals \<open>touch_x\<close>, \<open>touch_y\<close>,
    \<open>touch_active\<close> as \<open>touch_state\<close>, and \<open>process_event\<close>, the body of lines
    102--129 for one full record (with \<open>sint\<close> for the assignment of the signed 32-bit
    value).  \<open>feed\<close> runs it over a record sequence; \<open>abs_step\<close>/\<open>abs_feed\<close> are the
    abstract reader over optional coordinates.
  \<^item> \<open>Event_Reader\<close>: \<open>signal_handler\<close>; \<open>await_read\<close>, one blocking \<open>read\<close>
    with the signals delivered while it waits (a signal with a handler installed by
    \<open>signal()\<close> runs it, one without takes its default action and ends the process,
    status \<open>Killed\<close>); \<open>reader_iter\<close>, one iteration after
    the read returns (lines 90--129: \<open>EINTR\<close> retried, other errors break, short reads
    skipped); \<open>reader_loop\<close>, the \<open>while (running)\<close> loop (lines 87--130);
    \<open>format_xy\<close>, the \<open>printf\<close>; \<open>read_touch_events\<close>, the whole routine.  The kernel
    side of the reads is a list of environment actions (\<open>Sig\<close> or \<open>Ret\<close>); when it is
    used up the process is still blocked in \<open>read\<close> (status \<open>Blocked\<close>).
  \<^item> \<open>Device_Locator\<close>: \<open>common_paths\<close>, \<open>name_matches\<close> (lines 48--51),
    \<open>probe_devices\<close> (the loop of lines 39--59) and \<open>find_touch_device\<close>; its
    specification \<open>locate\<close> is a \<open>find\<close> over the candidates.
  \<^item> \<open>Touch_Main\<close>: \<open>main\<close> and the spec's three scenarios run end to end on a
    concrete device tree \<open>demo_world\<close>.
  \<^item> \<open>Reader_Machine\<close>: the loop as an \<open>inductive\<close> step relation \<open>mstep\<close> whose
    signal step may fire between any two control points (and a read may end in the
    default action of an unhandled signal), its reachable states
    \<open>mreach\<close>; and the environment-driven machine \<open>lstep\<close>/\<open>ltrace\<close>, whose steps
    consume the environment's events in order and which \<open>reader_loop\<close> equals on the
    events it consumes.

  \<^bold>\<open>What is proved.\<close>  The reader refines the frame specification (records in,
  first completed frame with known coordinates out, short and interrupted reads
  invisible), and the per-record step refines the abstract reader over optional
  coordinates; one call prints at most one line, of two non-negative 32-bit
  coordinates, at most 22 characters, which parses back to the pair; every exit closes
  the descriptor it opened, in the reader and in the locator; the locator returns its
  specification \<open>locate\<close>, the unique touch device when there is one and the default
  otherwise, and its name test is equivalent to three substring tests; the error paths
  (open failure: status 1; fatal read error: status 0; signal: status 0 without output)
  are characterised; records the loop body does not react to (including
  \<open>SYN_DROPPED\<close>) can be dropped without changing the outcome; over every interleaving
  of signals the loop writes at most one line, and the loop is the environment-driven
  machine on the events it consumed, so it reads nothing after it has decided; a name
  of 256 bytes or more reaches the name test without a terminator; and the spec's
  three scenarios hold for
  \<open>main\<close>.  This theory proves the
  properties of the whole program, over any device tree and either branch of \<open>main\<close>
  (\<open>device_path\<close> is the path it settles on, the argument or \<open>locate\<close>): every exit
  closes every descriptor opened by the locator or the reader, at most one line is
  written, the status is 1 exactly when that path cannot be opened, the program
  refines the frame specification end to end, and a program still waiting holds exactly one descriptor more than at start, on the
  device it reads; its diagnostics appear in the order of the code
  (\<open>main_stderr_order\<close>).  A delivered termination signal ends the reader at the next
  read that returns (\<open>read_touch_events_signal_terminates\<close>); since both handlers are
  installed before the first read, no such signal ends the reader by its default
  action (\<open>read_touch_events_never_killed\<close>).

  \<^bold>\<open>Bounds and termination.\<close>  No fuel is used.  \<open>reader_loop\<close> is a
  \<^theory_text>\<open>function\<close> whose termination measure is the length of the environment
  list: every iteration consumes at least one action.  A run of the real program
  that never ends is a run whose environment never runs out; the model represents
  its finite prefixes, and \<open>read_touch_events_eof_spins\<close> shows that no number of
  end-of-file reads ends the loop.  \<open>sizeof(struct input_event)\<close> is 16, the
  32-bit ARM layout the source's header names; the name and path buffers are 256
  bytes as in the source.

  \<^bold>\<open>Not modelled.\<close>  The kernel's input subsystem itself (records arrive as the
  environment provides them); the time stamp of a record (never read); signals
  delivered anywhere but in the blocking read, the program's one suspension point
  (before the handlers are installed their default action would end the process;
  the model's environment acts only at a read, and every read follows the
  installation), and signals other than \<open>SIGINT\<close>/\<open>SIGTERM\<close>; \<open>strerror\<close> texts and the exact
  wording of the diagnostics; \<open>stdout\<close> buffering (the model writes at the
  \<open>printf\<close>, which \<open>fflush\<close> makes true); the \<open>O_NONBLOCK\<close> flag of the probe (it
  affects no call the locator makes); what \<open>strstr\<close> reads past the end of \<open>name[]\<close>
  for device names of 256 bytes or more: \<open>probe_name_unterminated\<close> shows that the
  buffer then holds no terminator, and the model's name test sees only the 256 bytes
  the kernel copied.
\<close>

section \<open>Properties of the whole program\<close>

text \<open>Concrete runs of \<open>main\<close> with a path argument naming the missing \<open>event2\<close> of
  \<open>demo_world\<close>.\<close>

lemma main_event2:
  "main [''touch_reader'', ''/dev/input/event2''] acts demo_world =
     (Exited 1, emit_diag demo_world (CannotOpen ''/dev/input/event2'' ENOENT))"
  by (simp add: main_def path_buf_size_def NUL_def read_touch_events_def sys_open_def demo_world_def)

lemma device_path_event2:
  "device_path [''touch_reader'', ''/dev/input/event2''] demo_world = ''/dev/input/event2''"
  by (simp add: device_path_def path_buf_size_def NUL_def)

lemma locate_diag_demo:
  "locate_diag demo_world = FoundTouch ''/dev/input/event1'' ''cyttsp-touchscreen''"
proof -
  have "device_name demo_world ''/dev/input/event1'' = Some ''cyttsp-touchscreen''"
    by (simp add: device_name_def demo_world_def name_buf_size_def NUL_def c_string_def)
  with demo_candidates show ?thesis by (simp add: locate_diag_def common_paths_def)
qed

lemma demo_event2_missing: "nodes demo_world ''/dev/input/event2'' = None"
  by (simp add: demo_world_def)

text \<open>C27 (invariant). Whatever path \<open>main\<close> takes (argument or locator) and however the
  reader ends, when the program exits it holds exactly the descriptors it held at
  start: neither the locator's probes nor the reader leak one.\<close>

theorem main_closes_fds:
  assumes wf: "fds_wf w" and res: "main argv acts w = (Exited c, w')"
  shows "fds w' = fds w"
proof -
  obtain w1 where r: "read_touch_events (device_path argv w) acts w1 = (Exited c, w')"
    and f: "fds_wf w \<Longrightarrow> fds w1 = fds w \<and> fds_wf w1"
    using main_run [OF res] by blast
  from f wf have f1: "fds w1 = fds w" and wf1: "fds_wf w1" by simp_all
  from read_touch_events_exits [OF r] f1 show ?thesis
    by (auto dest: sys_open_close_fds [OF wf1])
qed

theorem main_closes_fds_witness:
  "fds_wf demo_world \<and>
   main [''touch_reader'', ''/dev/input/event2''] [] demo_world =
     (Exited 1, snd (main [''touch_reader'', ''/dev/input/event2''] [] demo_world)) \<and>
   fds (snd (main [''touch_reader'', ''/dev/input/event2''] [] demo_world)) = Map.empty"
  using main_closes_fds [OF demo_world_fds_wf, of "[''touch_reader'', ''/dev/input/event2'']" "[]" 1
      "snd (main [''touch_reader'', ''/dev/input/event2''] [] demo_world)"]
  by (simp add: main_event2 demo_world_fds_wf)

text \<open>C28 (safety). One run of the program writes at most one line to standard output,
  and only when it exits 0: the decimal pair of two non-negative 32-bit coordinates.
  The locator writes nothing there.\<close>

theorem main_single_line:
  assumes res: "main argv acts w = (s, w')"
  shows "stdout w' = stdout w \<or>
         (s = Exited 0 \<and> (\<exists>x y. 0 \<le> x \<and> 0 \<le> y \<and> int32 x \<and> int32 y \<and>
                                 stdout w' = stdout w @ format_xy x y))"
proof -
  obtain w1 where r: "read_touch_events (device_path argv w) acts w1 = (s, w')"
    and o: "stdout w1 = stdout w"
    using main_run [OF res] by blast
  from read_touch_events_exits [OF r] o show ?thesis
    by (auto dest!: reader_loop_emitted)
qed

theorem main_single_line_witness:
  "stdout (snd (main [''touch_reader'', ''/dev/input/event2''] [] demo_world)) = stdout demo_world \<or>
   (fst (main [''touch_reader'', ''/dev/input/event2''] [] demo_world) = Exited 0 \<and>
    (\<exists>x y. 0 \<le> x \<and> 0 \<le> y \<and> int32 x \<and> int32 y \<and>
       stdout (snd (main [''touch_reader'', ''/dev/input/event2''] [] demo_world)) = stdout demo_world @ format_xy x y))"
  using main_single_line [of "[''touch_reader'', ''/dev/input/event2'']" "[]" demo_world
      "fst (main [''touch_reader'', ''/dev/input/event2''] [] demo_world)"
      "snd (main [''touch_reader'', ''/dev/input/event2''] [] demo_world)"]
  by simp

text \<open>C29 (error). The program's exit status is 0, 1 or it is still waiting for
  records, and it is 1 exactly when the path it settled on (the argument, or the
  locator's choice) cannot be opened.\<close>

theorem main_status:
  assumes res: "main argv acts w = (s, w')"
  shows "(s = Exited 1) = (\<forall>n. nodes w (device_path argv w) = Some n \<longrightarrow> \<not> nd_readable n) \<and>
         s \<in> {Exited 0, Exited 1, Blocked}"
proof -
  obtain w1 where r: "read_touch_events (device_path argv w) acts w1 = (s, w')"
    and n: "nodes w1 = nodes w"
    using main_run [OF res] by blast
  from read_touch_events_status [OF r] n show ?thesis by auto
qed

theorem main_status_witness:
  "fst (main [''touch_reader'', ''/dev/input/event2''] [] demo_world) = Exited 1 \<and>
   nodes demo_world (device_path [''touch_reader'', ''/dev/input/event2''] demo_world) = None"
  using main_status [of "[''touch_reader'', ''/dev/input/event2'']" "[]" demo_world
      "fst (main [''touch_reader'', ''/dev/input/event2''] [] demo_world)"
      "snd (main [''touch_reader'', ''/dev/input/event2''] [] demo_world)"]
  by (simp add: main_event2 device_path_event2 demo_event2_missing)

text \<open>C30 (refinement). End to end: when the path the program settles on names a
  readable device, no signal arrives and no read fails other than by interruption,
  the program's status and output are those of the frame specification applied to the
  full records the device delivers.\<close>

theorem main_refines_spec:
  assumes node: "nodes w (device_path argv w) = Some n" "nd_readable n" and run: "running w"
    and quiet: "list_all quiet_act acts"
    and res: "main argv acts w = (s, w')"
  shows "s = fst (reader_spec (full_events acts)) \<and>
         stdout w' = stdout w @ snd (reader_spec (full_events acts))"
proof -
  obtain w1 where r: "read_touch_events (device_path argv w) acts w1 = (s, w')"
    and f: "nodes w1 = nodes w" "stdout w1 = stdout w" "running w1 = running w"
    using main_run [OF res] by blast
  from node f have node1: "nodes w1 (device_path argv w) = Some n" by simp
  from f run have run1: "running w1" by simp
  obtain w2 where o: "stdout w2 = stdout w1"
    and eq: "read_touch_events (device_path argv w) acts w1 =
           (case feed init_touch (full_events acts) of
              Emit k x y \<Rightarrow> (Exited 0, sys_close (write_stdout (listen_world (device_path argv w) w2) (format_xy x y)) (next_fd w1))
            | Continue st \<Rightarrow> (Blocked, listen_world (device_path argv w) w2))"
    by (rule read_touch_events_quiet [OF node1 node(2) run1 quiet])
  from r eq o f show ?thesis
    by (cases "feed init_touch (full_events acts)") (auto simp: reader_spec_def)
qed

theorem main_refines_spec_witness:
  "fst (main [''touch_reader''] press_trace demo_world) = Exited 0 \<and>
   stdout (snd (main [''touch_reader''] press_trace demo_world)) = ''100,200\<newline>''"
proof -
  have dp: "device_path [''touch_reader''] demo_world = ''/dev/input/event1''"
    by (simp add: device_path_def locate_demo_world)
  have node: "nodes demo_world (device_path [''touch_reader''] demo_world) =
      Some \<lparr>nd_readable = True, nd_name = Some ''cyttsp-touchscreen''\<rparr>"
    by (simp only: dp) (simp add: demo_world_def)
  have q: "list_all quiet_act press_trace" by (simp add: press_trace_def)
  have r: "running demo_world" by (simp add: demo_world_def)
  from main_refines_spec [OF node _ r q, of "fst (main [''touch_reader''] press_trace demo_world)"
      "snd (main [''touch_reader''] press_trace demo_world)"]
  show ?thesis
    by (simp add: press_trace_feed reader_spec_def format_xy_def dec_int_def dec_nat_large dec_nat_small)
qed

text \<open>C34 (invariant). While the program is still waiting for records it holds exactly
  the descriptors it started with and one more, a number that was free, open on the
  path it settled on.\<close>

theorem main_blocked_holds_device:
  assumes wf: "fds_wf w" and res: "main argv acts w = (Blocked, w')"
  shows "\<exists>fd. fds w fd = None \<and> fds w' = (fds w)(fd \<mapsto> device_path argv w)"
proof -
  obtain w1 where r: "read_touch_events (device_path argv w) acts w1 = (Blocked, w')"
    and f: "fds_wf w \<Longrightarrow> fds w1 = fds w \<and> fds_wf w1"
    using main_run [OF res] by blast
  from f wf have f1: "fds w1 = fds w" and wf1: "fds_wf w1" by simp_all
  from r have "fds w' = (fds w1)(next_fd w1 \<mapsto> device_path argv w)" by (rule read_touch_events_Blocked)
  moreover from wf1 have "fds w1 (next_fd w1) = None" by (simp add: fds_wf_def)
  ultimately show ?thesis using f1 by auto
qed

theorem main_blocked_holds_device_witness:
  "fst (main [''touch_reader''] [] demo_world) = Blocked \<and>
   (\<exists>fd. fds (snd (main [''touch_reader''] [] demo_world)) = [fd \<mapsto> ''/dev/input/event1''])"
proof -
  have q: "list_all quiet_act []" by simp
  obtain w' where m: "main [''touch_reader''] [] demo_world =
       (case feed init_touch (full_events []) of Emit k x y \<Rightarrow> (Exited 0, w') | Continue st \<Rightarrow> (Blocked, w'))"
    by (rule main_demo_quiet [OF q])
  then have b: "main [''touch_reader''] [] demo_world = (Blocked, w')" by simp
  have dp: "device_path [''touch_reader''] demo_world = ''/dev/input/event1''"
    by (simp add: device_path_def locate_demo_world)
  from main_blocked_holds_device [OF demo_world_fds_wf b] b dp show ?thesis by auto
qed

text \<open>C36 (functional). The diagnostics of a run, in the order written: the
  locator's finding (only without an argument), then the open error, or the banner
  and the Ctrl-C hint followed by the read error when a read failed.  Nothing else is
  written to standard error.\<close>

theorem main_stderr_order:
  assumes res: "main argv acts w = (s, w')"
  shows "\<exists>ds. stderr w' = stderr w @ (if 1 < length argv then [] else [locate_diag w]) @ ds \<and>
           ((\<exists>e. ds = [CannotOpen (device_path argv w) e]) \<or>
            ds = [Listening (device_path argv w), PressCtrlC] \<or>
            (\<exists>e. ds = [Listening (device_path argv w), PressCtrlC, ReadError e]))"
proof -
  obtain w1 where r: "read_touch_events (device_path argv w) acts w1 = (s, w')"
    and se: "stderr w1 = stderr w @ (if 1 < length argv then [] else [locate_diag w])"
    using main_run [OF res] by blast
  from read_touch_events_diags [OF r] se show ?thesis by auto
qed

theorem main_stderr_order_witness:
  "\<exists>ds. stderr (snd (main [''touch_reader''] press_trace demo_world)) =
          [FoundTouch ''/dev/input/event1'' ''cyttsp-touchscreen''] @ ds \<and>
        ((\<exists>e. ds = [CannotOpen ''/dev/input/event1'' e]) \<or>
         ds = [Listening ''/dev/input/event1'', PressCtrlC] \<or>
         (\<exists>e. ds = [Listening ''/dev/input/event1'', PressCtrlC, ReadError e]))"
proof -
  have dp: "device_path [''touch_reader''] demo_world = ''/dev/input/event1''"
    by (simp add: device_path_def locate_demo_world)
  from main_stderr_order [of "[''touch_reader'']" press_trace demo_world
      "fst (main [''touch_reader''] press_trace demo_world)" "snd (main [''touch_reader''] press_trace demo_world)"]
  show ?thesis by (simp add: dp locate_diag_demo)
qed

end
